theory Spec2Isabelle
  imports Main "HOL-Library.Word" "HOL-Library.Log_Nat" "HOL-Library.Multiset"
begin

section \<open>JavaScript values\<close>

text \<open>
  A JavaScript string is a sequence of UTF-16 code units; \<open>length\<close> counts code units.
  \<open>ascii\<close> writes a literal.
\<close>

type_synonym jsstring = "16 word list"

definition ascii :: "string \<Rightarrow> jsstring" where
  "ascii s = map of_char s"

text \<open>
  A JavaScript number is an IEEE 754 binary64 value. \<open>Fin v\<close> carries the exact rational
  value of a finite double, \<open>Inf True\<close> is \<open>+Infinity\<close>, \<open>Inf False\<close> is \<open>-Infinity\<close>.
  The sign of zero is not represented: no operation of the modelled code tells \<open>-0\<close>
  from \<open>+0\<close> (\<open>===\<close>, \<open>>\<close> and \<open>toFixed\<close> treat them alike, and the code never divides
  by a zero).
\<close>

datatype jsnum = NaN | Inf bool | Fin rat

datatype jsval =
    Undefined
  | Null
  | Bool bool
  | Num jsnum
  | Str jsstring
  | Arr "jsval list"
  | Obj "(jsstring \<times> jsval) list"

datatype exn = TypeError string | SyntaxError string | Rejected string

definition bindE :: "exn + 'a \<Rightarrow> ('a \<Rightarrow> exn + 'b) \<Rightarrow> exn + 'b" where
  "bindE m f = (case m of Inl e \<Rightarrow> Inl e | Inr x \<Rightarrow> f x)"

text \<open>\<open>Array.prototype.map\<close> with a callback that may throw: the first exception ends the call.\<close>

fun map_exn :: "('a \<Rightarrow> exn + 'b) \<Rightarrow> 'a list \<Rightarrow> exn + 'b list" where
  "map_exn f [] = Inr []"
| "map_exn f (x # xs) =
     bindE (f x) (\<lambda>y. bindE (map_exn f xs) (\<lambda>ys. Inr (y # ys)))"

subsection \<open>Numbers: rounding to binary64\<close>

definition round_half_even :: "rat \<Rightarrow> int" where
  "round_half_even q =
     (let f = \<lfloor>q\<rfloor>; d = q - of_int f
      in if d < 1 / 2 then f else if 1 / 2 < d then f + 1 else if even f then f else f + 1)"

text \<open>For \<open>a > 0\<close>, the exponent \<open>e\<close> with \<open>2^e \<le> a < 2^(e+1)\<close>.\<close>

definition ilog2 :: "rat \<Rightarrow> int" where
  "ilog2 a =
     (let (p, q) = quotient_of a; d = bitlen p - bitlen q
      in if a < 2 powi d then d - 1 else d)"

text \<open>
  Round to nearest, ties to even: 53 significant bits, subnormals below \<open>2^-1022\<close>
  (spacing \<open>2^-1074\<close>). With \<open>e\<close> the exponent of \<open>\<bar>v\<bar>\<close>, the rounded magnitude is
  \<open>m * 2^k\<close>; it reaches \<open>2^1024\<close>, and the result is an infinity, exactly when
  \<open>e \<ge> 1024\<close>, or \<open>e = 1023\<close> and the significand rounded up to \<open>2^53\<close>.
\<close>

definition round_double :: "rat \<Rightarrow> jsnum" where
  "round_double v =
     (if v = 0 then Fin 0
      else let a = \<bar>v\<bar>; e = ilog2 a; k = max e (- 1022) - 52;
               m = round_half_even (a / 2 powi k)
           in if 1024 \<le> e \<or> (e = 1023 \<and> m = 2 ^ 53) then Inf (0 < v)
              else Fin ((if v < 0 then - 1 else 1) * of_int m * 2 powi k))"

text \<open>A number is a double when rounding leaves it as it is.\<close>

fun is_double :: "jsnum \<Rightarrow> bool" where
  "is_double NaN = True"
| "is_double (Inf s) = True"
| "is_double (Fin v) = (round_double v = Fin v)"

fun isNaN :: "jsnum \<Rightarrow> bool" where
  "isNaN NaN = True"
| "isNaN (Inf s) = False"
| "isNaN (Fin v) = False"

fun fneg :: "jsnum \<Rightarrow> jsnum" where
  "fneg NaN = NaN"
| "fneg (Inf s) = Inf (\<not> s)"
| "fneg (Fin v) = Fin (- v)"

text \<open>The binary operators \<open>-\<close>, \<open>/\<close> and \<open>*\<close> on numbers.\<close>

fun fsub :: "jsnum \<Rightarrow> jsnum \<Rightarrow> jsnum" where
  "fsub NaN y = NaN"
| "fsub (Inf s) NaN = NaN"
| "fsub (Inf s) (Inf t) = (if s = t then NaN else Inf s)"
| "fsub (Inf s) (Fin b) = Inf s"
| "fsub (Fin a) NaN = NaN"
| "fsub (Fin a) (Inf t) = Inf (\<not> t)"
| "fsub (Fin a) (Fin b) = round_double (a - b)"

fun fdiv :: "jsnum \<Rightarrow> jsnum \<Rightarrow> jsnum" where
  "fdiv NaN y = NaN"
| "fdiv (Inf s) NaN = NaN"
| "fdiv (Inf s) (Inf t) = NaN"
| "fdiv (Inf s) (Fin b) = Inf (s = (0 \<le> b))"
| "fdiv (Fin a) NaN = NaN"
| "fdiv (Fin a) (Inf t) = Fin 0"
| "fdiv (Fin a) (Fin b) =
     (if b = 0 then (if a = 0 then NaN else Inf (0 < a)) else round_double (a / b))"

fun fmul :: "jsnum \<Rightarrow> jsnum \<Rightarrow> jsnum" where
  "fmul NaN y = NaN"
| "fmul (Inf s) NaN = NaN"
| "fmul (Inf s) (Inf t) = Inf (s = t)"
| "fmul (Inf s) (Fin b) = (if b = 0 then NaN else Inf (s = (0 < b)))"
| "fmul (Fin a) NaN = NaN"
| "fmul (Fin a) (Inf t) = (if a = 0 then NaN else Inf (t = (0 < a)))"
| "fmul (Fin a) (Fin b) = round_double (a * b)"

text \<open>The comparisons \<open>x > y\<close> and \<open>x >= y\<close> on numbers: false when either side is \<open>NaN\<close>.\<close>

fun num_gt :: "jsnum \<Rightarrow> jsnum \<Rightarrow> bool" where
  "num_gt NaN y = False"
| "num_gt (Inf s) NaN = False"
| "num_gt (Inf s) (Inf t) = (s \<and> \<not> t)"
| "num_gt (Inf s) (Fin b) = s"
| "num_gt (Fin a) NaN = False"
| "num_gt (Fin a) (Inf t) = (\<not> t)"
| "num_gt (Fin a) (Fin b) = (b < a)"

fun num_ge :: "jsnum \<Rightarrow> jsnum \<Rightarrow> bool" where
  "num_ge NaN y = False"
| "num_ge (Inf s) NaN = False"
| "num_ge (Inf s) (Inf t) = (s \<or> \<not> t)"
| "num_ge (Inf s) (Fin b) = s"
| "num_ge (Fin a) NaN = False"
| "num_ge (Fin a) (Inf t) = (\<not> t)"
| "num_ge (Fin a) (Fin b) = (b \<le> a)"

text \<open>\<open>x === 0\<close> and \<open>x !== 0\<close> for a number \<open>x\<close>.\<close>

definition is_zero :: "jsnum \<Rightarrow> bool" where
  "is_zero x = (x = Fin 0)"

subsection \<open>Strings\<close>

definition chr :: "char \<Rightarrow> 16 word" where
  "chr c = of_char c"

definition is_digit :: "16 word \<Rightarrow> bool" where
  "is_digit c = (48 \<le> c \<and> c \<le> 57)"

definition digit_val :: "16 word \<Rightarrow> int" where
  "digit_val c = uint c - 48"

definition digits_val :: "jsstring \<Rightarrow> int" where
  "digits_val ds = foldl (\<lambda>n c. 10 * n + digit_val c) 0 ds"

text \<open>The decimal digits of a natural number, most significant first.\<close>

fun dec_digits :: "nat \<Rightarrow> jsstring" where
  "dec_digits n =
     (if n < 10 then [of_nat (48 + n)]
      else dec_digits (n div 10) @ [of_nat (48 + n mod 10)])"

declare dec_digits.simps [simp del]

text \<open>\<open>s.replace(/,/g, "")\<close>: every comma is removed.\<close>

definition remove_commas :: "jsstring \<Rightarrow> jsstring" where
  "remove_commas s = filter (\<lambda>c. c \<noteq> chr CHR '','') s"

text \<open>
  \<open>s.replace(/<[^>]*>?/gm, '')\<close>: from each \<open><\<close> the match runs over every code unit
  that is not \<open>>\<close> and then over one \<open>>\<close> if there is one; the match is removed. The
  flag says whether the scan is inside a match.
\<close>

primrec strip_scan :: "bool \<Rightarrow> jsstring \<Rightarrow> jsstring" where
  "strip_scan inside [] = []"
| "strip_scan inside (c # cs) =
     (if inside then (if c = chr CHR ''>'' then strip_scan False cs else strip_scan True cs)
      else if c = chr CHR ''<'' then strip_scan True cs
      else c # strip_scan False cs)"

definition strip_tags :: "jsstring \<Rightarrow> jsstring" where
  "strip_tags s = strip_scan False s"

text \<open>\<open>s.includes("+")\<close> and \<open>s.replace("+", "")\<close> (a string pattern: the first match only).\<close>

definition includes_plus :: "jsstring \<Rightarrow> bool" where
  "includes_plus s = (chr CHR ''+'' \<in> set s)"

definition remove_first_plus :: "jsstring \<Rightarrow> jsstring" where
  "remove_first_plus s = remove1 (chr CHR ''+'') s"

subsection \<open>parseFloat\<close>

text \<open>White space and line terminators, which \<open>parseFloat\<close> skips at the start.\<close>

definition is_ws :: "16 word \<Rightarrow> bool" where
  "is_ws c = (c \<in> {0x09, 0x0A, 0x0B, 0x0C, 0x0D, 0x20, 0xA0, 0x1680, 0x2028, 0x2029,
                   0x202F, 0x205F, 0x3000, 0xFEFF} \<or> (0x2000 \<le> c \<and> c \<le> 0x200A))"

text \<open>
  The mathematical value \<open>digits * 10^(ex - scale)\<close>, rounded to a double. (The language
  lets an engine drop digits after the twentieth significant one before rounding; the
  model rounds the exact value.)
\<close>

definition decimal_value :: "jsstring \<Rightarrow> nat \<Rightarrow> int \<Rightarrow> jsnum" where
  "decimal_value ds scale ex = round_double (of_int (digits_val ds) * 10 powi (ex - int scale))"

text \<open>An \<open>ExponentPart\<close> at the start of the string, if there is a complete one; otherwise 0.\<close>

definition parse_exponent :: "jsstring \<Rightarrow> int" where
  "parse_exponent s =
     (case s of
        [] \<Rightarrow> 0
      | e # t \<Rightarrow>
          if e = chr CHR ''e'' \<or> e = chr CHR ''E'' then
            (case t of
               [] \<Rightarrow> 0
             | c # u \<Rightarrow>
                 if c = chr CHR ''+'' then
                   (if takeWhile is_digit u = [] then 0 else digits_val (takeWhile is_digit u))
                 else if c = chr CHR ''-'' then
                   (if takeWhile is_digit u = [] then 0 else - digits_val (takeWhile is_digit u))
                 else
                   (if takeWhile is_digit t = [] then 0 else digits_val (takeWhile is_digit t)))
          else 0)"

text \<open>
  The longest prefix that is a \<open>StrUnsignedDecimalLiteral\<close>: \<open>Infinity\<close>, digits with an
  optional fraction and exponent, or a dot followed by digits and an optional exponent.
  \<open>NaN\<close> when no prefix is one.
\<close>

definition parse_unsigned :: "jsstring \<Rightarrow> jsnum" where
  "parse_unsigned s =
     (if take 8 s = ascii ''Infinity'' then Inf True
      else
        let ip = takeWhile is_digit s; r1 = dropWhile is_digit s in
        if ip \<noteq> [] then
          (case r1 of
             [] \<Rightarrow> decimal_value ip 0 0
           | c # t \<Rightarrow>
               if c = chr CHR ''.'' then
                 (let fp = takeWhile is_digit t; r2 = dropWhile is_digit t
                  in decimal_value (ip @ fp) (length fp) (parse_exponent r2))
               else decimal_value ip 0 (parse_exponent r1))
        else
          (case s of
             [] \<Rightarrow> NaN
           | c # t \<Rightarrow>
               if c = chr CHR ''.'' then
                 (let fp = takeWhile is_digit t; r2 = dropWhile is_digit t
                  in if fp = [] then NaN
                     else decimal_value fp (length fp) (parse_exponent r2))
               else NaN))"

definition parseFloat :: "jsstring \<Rightarrow> jsnum" where
  "parseFloat s =
     (case dropWhile is_ws s of
        [] \<Rightarrow> NaN
      | c # u \<Rightarrow>
          if c = chr CHR ''-'' then fneg (parse_unsigned u)
          else if c = chr CHR ''+'' then parse_unsigned u
          else parse_unsigned (c # u))"

subsection \<open>Built-in conversions\<close>

text \<open>
  Three library operations of the language are parameters of the model: \<open>Number::toString\<close>
  on a finite number (the shortest decimal that reads back as the same double),
  \<open>StringToNumber\<close> (the value of a whole string as a numeric literal), and
  \<open>Array.prototype.toString\<close> (the elements joined with commas). The code reaches them
  only for cells that are not strings; every theorem holds for all of them.
\<close>

record builtins =
  number_to_string :: "rat \<Rightarrow> jsstring"
  string_to_number :: "jsstring \<Rightarrow> jsnum"
  array_to_string :: "jsval list \<Rightarrow> exn + jsstring"

fun truthy :: "jsval \<Rightarrow> bool" where
  "truthy Undefined = False"
| "truthy Null = False"
| "truthy (Bool b) = b"
| "truthy (Num x) = (x \<noteq> NaN \<and> x \<noteq> Fin 0)"
| "truthy (Str s) = (s \<noteq> [])"
| "truthy (Arr xs) = True"
| "truthy (Obj kvs) = True"

text \<open>
  Reading a named property, for the names this program reads (\<open>data\<close>, \<open>tables\<close>,
  \<open>aaData\<close>, \<open>length\<close>): of these, only \<open>length\<close> exists on a built-in prototype, for
  strings and arrays. Reading any property of \<open>undefined\<close> or \<open>null\<close> throws.
\<close>

fun get_prop :: "jsval \<Rightarrow> jsstring \<Rightarrow> exn + jsval" where
  "get_prop Undefined k = Inl (TypeError ''Cannot read properties of undefined'')"
| "get_prop Null k = Inl (TypeError ''Cannot read properties of null'')"
| "get_prop (Bool b) k = Inr Undefined"
| "get_prop (Num x) k = Inr Undefined"
| "get_prop (Str s) k =
     Inr (if k = ascii ''length'' then Num (Fin (of_nat (length s))) else Undefined)"
| "get_prop (Arr xs) k =
     Inr (if k = ascii ''length'' then Num (Fin (of_nat (length xs))) else Undefined)"
| "get_prop (Obj kvs) k = Inr (case map_of kvs k of Some v \<Rightarrow> v | None \<Rightarrow> Undefined)"

text \<open>Reading an index: \<open>v[i]\<close>. A string yields the one-unit string at \<open>i\<close>.\<close>

fun get_index :: "jsval \<Rightarrow> nat \<Rightarrow> exn + jsval" where
  "get_index Undefined i = Inl (TypeError ''Cannot read properties of undefined'')"
| "get_index Null i = Inl (TypeError ''Cannot read properties of null'')"
| "get_index (Bool b) i = Inr Undefined"
| "get_index (Num x) i = Inr Undefined"
| "get_index (Str s) i = Inr (if i < length s then Str [s ! i] else Undefined)"
| "get_index (Arr xs) i = Inr (if i < length xs then xs ! i else Undefined)"
| "get_index (Obj kvs) i =
     Inr (case map_of kvs (dec_digits i) of Some v \<Rightarrow> v | None \<Rightarrow> Undefined)"

definition num_to_str :: "builtins \<Rightarrow> jsnum \<Rightarrow> jsstring" where
  "num_to_str B x =
     (case x of
        NaN \<Rightarrow> ascii ''NaN''
      | Inf s \<Rightarrow> (if s then ascii ''Infinity'' else ascii ''-Infinity'')
      | Fin v \<Rightarrow> number_to_string B v)"

text \<open>
  The method call \<open>v.toString()\<close>. An object from JSON has no callable property of its
  own, so an own \<open>toString\<close> makes the call throw; otherwise \<open>Object.prototype.toString\<close>
  answers.
\<close>

fun to_string_method :: "builtins \<Rightarrow> jsval \<Rightarrow> exn + jsstring" where
  "to_string_method B Undefined = Inl (TypeError ''Cannot read properties of undefined'')"
| "to_string_method B Null = Inl (TypeError ''Cannot read properties of null'')"
| "to_string_method B (Bool b) = Inr (if b then ascii ''true'' else ascii ''false'')"
| "to_string_method B (Num x) = Inr (num_to_str B x)"
| "to_string_method B (Str s) = Inr s"
| "to_string_method B (Arr xs) = array_to_string B xs"
| "to_string_method B (Obj kvs) =
     (case map_of kvs (ascii ''toString'') of
        Some v \<Rightarrow> Inl (TypeError ''toString is not a function'')
      | None \<Rightarrow> Inr (ascii ''[object Object]''))"

text \<open>\<open>ToPropertyKey\<close>: the string under which \<open>obj[v]\<close> reads or writes.\<close>

fun to_property_key :: "builtins \<Rightarrow> jsval \<Rightarrow> exn + jsstring" where
  "to_property_key B Undefined = Inr (ascii ''undefined'')"
| "to_property_key B Null = Inr (ascii ''null'')"
| "to_property_key B (Bool b) = Inr (if b then ascii ''true'' else ascii ''false'')"
| "to_property_key B (Num x) = Inr (num_to_str B x)"
| "to_property_key B (Str s) = Inr s"
| "to_property_key B (Arr xs) = array_to_string B xs"
| "to_property_key B (Obj kvs) =
     (case map_of kvs (ascii ''toString'') of
        Some v \<Rightarrow> Inl (TypeError ''Cannot convert object to primitive value'')
      | None \<Rightarrow> Inr (ascii ''[object Object]''))"

text \<open>\<open>ToNumber\<close>, as the comparisons \<open>v > 0\<close> and \<open>v >= 6\<close> apply it to their left operand.\<close>

fun to_number :: "builtins \<Rightarrow> jsval \<Rightarrow> exn + jsnum" where
  "to_number B Undefined = Inr NaN"
| "to_number B Null = Inr (Fin 0)"
| "to_number B (Bool b) = Inr (if b then Fin 1 else Fin 0)"
| "to_number B (Num x) = Inr x"
| "to_number B (Str s) = Inr (string_to_number B s)"
| "to_number B (Arr xs) = bindE (array_to_string B xs) (\<lambda>s. Inr (string_to_number B s))"
| "to_number B (Obj kvs) =
     (case map_of kvs (ascii ''toString'') of
        Some v \<Rightarrow> Inl (TypeError ''Cannot convert object to primitive value'')
      | None \<Rightarrow> Inr (string_to_number B (ascii ''[object Object]'')))"

text \<open>
  The receiver of \<open>v.replace(...)\<close>: only a string has a callable \<open>replace\<close>.
\<close>

fun replace_receiver :: "jsval \<Rightarrow> exn + jsstring" where
  "replace_receiver Undefined = Inl (TypeError ''Cannot read properties of undefined'')"
| "replace_receiver Null = Inl (TypeError ''Cannot read properties of null'')"
| "replace_receiver (Str s) = Inr s"
| "replace_receiver v = Inl (TypeError ''replace is not a function'')"

text \<open>
  \<open>x.toFixed(2)\<close>. For a finite \<open>x\<close> below \<open>10^21\<close> in magnitude: the integer \<open>n\<close> nearest
  to \<open>100 * \<bar>x\<bar>\<close> (the larger one on a tie), written in decimal with at least three digits
  and a dot before the last two, after a minus sign when \<open>x < 0\<close>.
\<close>

definition toFixed2 :: "builtins \<Rightarrow> jsnum \<Rightarrow> jsstring" where
  "toFixed2 B x =
     (case x of
        NaN \<Rightarrow> ascii ''NaN''
      | Inf s \<Rightarrow> (if s then ascii ''Infinity'' else ascii ''-Infinity'')
      | Fin v \<Rightarrow>
          (let s = (if v < 0 then ascii ''-'' else []); a = \<bar>v\<bar> in
           if 10 ^ 21 \<le> a then s @ number_to_string B a
           else
             let n = nat \<lfloor>a * 100 + 1 / 2\<rfloor>;
                 m = dec_digits n;
                 m' = replicate (3 - length m) (chr CHR ''0'') @ m;
                 k = length m'
             in s @ take (k - 2) m' @ ascii ''.'' @ drop (k - 2) m'))"

section \<open>Row normalizers (server.ts)\<close>

record stock =
  code :: jsval
  name :: jsval
  pct :: jsnum
  close :: jsnum
  amount :: jsstring

text \<open>
  Lines 73-74 and 103-104, the same in both normalizers:
  \<open>prevClose = close - change; pct = prevClose !== 0 ? (change / prevClose) * 100 : 0\<close>.
\<close>

definition compute_pct :: "jsnum \<Rightarrow> jsnum \<Rightarrow> jsnum" where
  "compute_pct close0 change =
     (let prevClose = fsub close0 change
      in if \<not> is_zero prevClose then fmul (fdiv change prevClose) (Fin 100) else Fin 0)"

text \<open>Line 66: \<open>parseFloat(row[7].replace(/,/g, ""))\<close>, given the string \<open>row[7]\<close>.\<close>

definition twse_close :: "jsstring \<Rightarrow> jsnum" where
  "twse_close s7 = parseFloat (remove_commas s7)"

text \<open>Lines 68-69, given the string \<open>row[8]\<close>.\<close>

definition twse_change :: "jsstring \<Rightarrow> jsnum" where
  "twse_change s8 =
     (let changeStr = remove_commas (strip_tags s8)
      in if includes_plus changeStr then parseFloat (remove_first_plus changeStr)
         else parseFloat changeStr)"

text \<open>The callback of \<open>json.data.map\<close> in \<open>processTwseData\<close>; \<open>None\<close> is its \<open>null\<close>.\<close>

definition twse_row :: "jsval \<Rightarrow> exn + stock option" where
  "twse_row row =
     bindE (get_index row 0) (\<lambda>code0.
     bindE (get_index row 1) (\<lambda>name0.
     bindE (get_index row 3) (\<lambda>r3.
     bindE (replace_receiver r3) (\<lambda>s3.
     let amountRaw = remove_commas s3 in
     bindE (get_index row 7) (\<lambda>r7.
     bindE (replace_receiver r7) (\<lambda>s7.
     let close0 = twse_close s7 in
     bindE (get_index row 8) (\<lambda>r8.
     bindE (replace_receiver r8) (\<lambda>s8.
     let change = twse_change s8 in
     if isNaN close0 \<or> isNaN change \<or> is_zero close0 then Inr None
     else Inr (Some \<lparr>code = code0, name = name0, pct = compute_pct close0 change,
                      close = close0, amount = amountRaw\<rparr>)))))))))"

text \<open>\<open>.filter(s => s !== null)\<close>\<close>

definition filter_non_null :: "'a option list \<Rightarrow> 'a list" where
  "filter_non_null ys = List.map_filter (\<lambda>y. y) ys"

definition processTwseData :: "jsval \<Rightarrow> exn + stock list" where
  "processTwseData json =
     bindE (get_prop json (ascii ''data'')) (\<lambda>d.
     if \<not> truthy d then Inr []
     else case d of
       Arr rows \<Rightarrow> bindE (map_exn twse_row rows) (\<lambda>ys. Inr (filter_non_null ys))
     | _ \<Rightarrow> Inl (TypeError ''json.data.map is not a function''))"

text \<open>Lines 94-96: \<open>(v || "0").toString().replace(/,/g, "")\<close> for a cell \<open>v\<close>.\<close>

definition tpex_field :: "builtins \<Rightarrow> jsval \<Rightarrow> exn + jsstring" where
  "tpex_field B v =
     bindE (to_string_method B (if truthy v then v else Str (ascii ''0'')))
       (\<lambda>s. Inr (remove_commas s))"

text \<open>The callback of \<open>data.map\<close> in \<open>processTpexData\<close>.\<close>

definition tpex_row :: "builtins \<Rightarrow> jsval \<Rightarrow> exn + stock option" where
  "tpex_row B row =
     bindE (get_index row 0) (\<lambda>code0.
     bindE (get_index row 1) (\<lambda>name0.
     bindE (get_prop code0 (ascii ''length'')) (\<lambda>len.
     bindE (to_number B len) (\<lambda>n.
     if num_ge n (Fin 6) then Inr None
     else
       bindE (get_index row 2) (\<lambda>r2.
       bindE (tpex_field B r2) (\<lambda>closeStr.
       bindE (get_index row 3) (\<lambda>r3.
       bindE (tpex_field B r3) (\<lambda>changeStr.
       bindE (get_index row 8) (\<lambda>r8.
       bindE (tpex_field B r8) (\<lambda>amountStr.
       let close0 = parseFloat closeStr; change = parseFloat changeStr in
       if isNaN close0 \<or> isNaN change \<or> is_zero close0 then Inr None
       else Inr (Some \<lparr>code = code0, name = name0, pct = compute_pct close0 change,
                        close = close0, amount = amountStr\<rparr>)))))))))))"

text \<open>Lines 81-84: the container of the rows, \<open>[]\<close> when none of the three is there.\<close>

definition tpex_container :: "builtins \<Rightarrow> jsval \<Rightarrow> exn + jsval" where
  "tpex_container B json =
     bindE (get_prop json (ascii ''tables'')) (\<lambda>tables.
     bindE (if truthy tables
            then bindE (get_prop tables (ascii ''length'')) (\<lambda>len.
                 bindE (to_number B len) (\<lambda>n. Inr (num_gt n (Fin 0))))
            else Inr False) (\<lambda>has_tables.
     if has_tables then
       bindE (get_index tables 0) (\<lambda>t0. get_prop t0 (ascii ''data''))
     else
       bindE (get_prop json (ascii ''data'')) (\<lambda>d.
       if truthy d then Inr d
       else bindE (get_prop json (ascii ''aaData'')) (\<lambda>a.
            if truthy a then Inr a else Inr (Arr [])))))"

definition processTpexData :: "builtins \<Rightarrow> jsval \<Rightarrow> exn + stock list" where
  "processTpexData B json =
     bindE (tpex_container B json) (\<lambda>d.
     if \<not> truthy d then Inr []
     else bindE (get_prop d (ascii ''length'')) (\<lambda>len.
       if len = Num (Fin 0) then Inr []
       else case d of
         Arr rows \<Rightarrow> bindE (map_exn (tpex_row B) rows) (\<lambda>ys. Inr (filter_non_null ys))
       | _ \<Rightarrow> Inl (TypeError ''data.map is not a function'')))"

section \<open>The market-data endpoint (server.ts)\<close>

text \<open>Lines 28-29: \<open>`${sign}${s.pct.toFixed(2)}%`\<close> with \<open>sign = s.pct > 0 ? "+" : ""\<close>.\<close>

definition format_pct :: "builtins \<Rightarrow> jsnum \<Rightarrow> jsstring" where
  "format_pct B p =
     (let sign = (if num_gt p (Fin 0) then ascii ''+'' else [])
      in sign @ toFixed2 B p @ ascii ''%'')"

text \<open>
  \<open>stockMap[k] = v\<close> on an object created by \<open>{}\<close>: the name \<open>__proto__\<close> is an accessor
  of \<open>Object.prototype\<close> whose setter ignores a string, so no property is created for it.
\<close>

definition js_set :: "(jsstring \<rightharpoonup> jsstring) \<Rightarrow> jsstring \<Rightarrow> jsstring \<Rightarrow> (jsstring \<rightharpoonup> jsstring)" where
  "js_set m k v = (if k = ascii ''__proto__'' then m else m(k \<mapsto> v))"

text \<open>Lines 26-30: the \<open>forEach\<close> over \<open>allStocks\<close>, from the map built so far.\<close>

fun build_stock_map ::
  "builtins \<Rightarrow> stock list \<Rightarrow> (jsstring \<rightharpoonup> jsstring) \<Rightarrow> exn + (jsstring \<rightharpoonup> jsstring)" where
  "build_stock_map B [] m = Inr m"
| "build_stock_map B (s # ss) m =
     bindE (to_property_key B (code s))
       (\<lambda>k. build_stock_map B ss (js_set m k (format_pct B (pct s))))"

text \<open>The entry of \<open>stockMap\<close> under a key once the \<open>forEach\<close> is done.\<close>

definition stock_map_entry :: "builtins \<Rightarrow> stock list \<Rightarrow> jsstring \<Rightarrow> exn + jsstring option" where
  "stock_map_entry B allStocks k =
     bindE (build_stock_map B allStocks Map.empty) (\<lambda>m. Inr (m k))"

text \<open>
  \<open>Array.prototype.sort\<close> with a comparator. The language requires a stable sort and
  reads a comparator result \<open>NaN\<close> as \<open>+0\<close>; \<open>cmp x y > 0\<close> puts \<open>x\<close> after \<open>y\<close>. For a
  consistent comparator every stable sort returns the same array; for the others the
  order is left to the engine, and this insertion sort is one of the orders allowed.
\<close>

fun insort_cmp :: "('a \<Rightarrow> 'a \<Rightarrow> jsnum) \<Rightarrow> 'a \<Rightarrow> 'a list \<Rightarrow> 'a list" where
  "insort_cmp cmp x [] = [x]"
| "insort_cmp cmp x (y # ys) =
     (if num_gt (cmp x y) (Fin 0) then y # insort_cmp cmp x ys else x # y # ys)"

definition js_sort :: "('a \<Rightarrow> 'a \<Rightarrow> jsnum) \<Rightarrow> 'a list \<Rightarrow> 'a list" where
  "js_sort cmp xs = foldr (insort_cmp cmp) xs []"

text \<open>Lines 32-33.\<close>

definition gainers_of :: "stock list \<Rightarrow> stock list" where
  "gainers_of allStocks = take 100 (js_sort (\<lambda>a b. fsub (pct b) (pct a)) allStocks)"

definition losers_of :: "stock list \<Rightarrow> stock list" where
  "losers_of allStocks = take 100 (js_sort (\<lambda>a b. fsub (pct a) (pct b)) allStocks)"

text \<open>A record whose \<open>pct\<close> is a double other than \<open>NaN\<close>.\<close>

definition rankable :: "stock \<Rightarrow> bool" where
  "rankable s = (\<not> isNaN (pct s) \<and> is_double (pct s))"

record snapshot =
  gainers :: "stock list"
  losers :: "stock list"
  stockMap :: "jsstring \<rightharpoonup> jsstring"
  timestamp :: jsstring

datatype body = ErrorBody jsstring | SnapshotBody snapshot

datatype response = Response nat body

text \<open>
  \<open>Promise.all\<close> of the two fetches: it rejects with the reason of the promise that rejects
  first; \<open>twse_first\<close> says which one that is when both reject.
\<close>

fun promise_all :: "bool \<Rightarrow> exn + 'a \<Rightarrow> exn + 'b \<Rightarrow> exn + ('a \<times> 'b)" where
  "promise_all twse_first (Inl e1) (Inl e2) = Inl (if twse_first then e1 else e2)"
| "promise_all twse_first (Inl e1) (Inr b) = Inl e1"
| "promise_all twse_first (Inr a) (Inl e2) = Inl e2"
| "promise_all twse_first (Inr a) (Inr b) = Inr (a, b)"

text \<open>
  The body of the \<open>try\<close> block, lines 10-40. A fetch either rejects or yields a response
  whose \<open>json()\<close> either rejects or yields the parsed payload; \<open>now\<close> is the formatted
  time of line 39.
\<close>

definition try_block ::
  "builtins \<Rightarrow> bool \<Rightarrow> exn + (exn + jsval) \<Rightarrow> exn + (exn + jsval) \<Rightarrow> jsstring \<Rightarrow> exn + response" where
  "try_block B twse_first twseFetch tpexFetch now =
     bindE (promise_all twse_first twseFetch tpexFetch) (\<lambda>(twseRes, tpexRes).
     bindE twseRes (\<lambda>twseData.
     bindE tpexRes (\<lambda>tpexData.
     bindE (processTwseData twseData) (\<lambda>twseStocks.
     bindE (processTpexData B tpexData) (\<lambda>tpexStocks.
     let allStocks = twseStocks @ tpexStocks in
     if length allStocks = 0 then
       Inr (Response 404 (ErrorBody (ascii ''No market data available today.'')))
     else
       bindE (build_stock_map B allStocks Map.empty) (\<lambda>m.
       Inr (Response 200 (SnapshotBody
         \<lparr>gainers = gainers_of allStocks, losers = losers_of allStocks,
          stockMap = m, timestamp = now\<rparr>))))))))"

text \<open>
  The handler of \<open>GET /api/market-data\<close>: the response sent and what \<open>console.error\<close>
  was given.
\<close>

definition market_data ::
  "builtins \<Rightarrow> bool \<Rightarrow> exn + (exn + jsval) \<Rightarrow> exn + (exn + jsval) \<Rightarrow> jsstring
     \<Rightarrow> response \<times> (string \<times> exn) list" where
  "market_data B twse_first twseFetch tpexFetch now =
     (case try_block B twse_first twseFetch tpexFetch now of
        Inr r \<Rightarrow> (r, [])
      | Inl e \<Rightarrow>
          (Response 500 (ErrorBody (ascii ''Failed to fetch market data'')),
           [(''Error fetching market data:'', e)]))"

section \<open>The classification client\<close>

text \<open>
  \<open>classifyStocks\<close> from the point where \<open>generateContent\<close> has settled: the call rejects
  or yields a response whose \<open>text\<close> is a string or absent. \<open>JSON.parse\<close> is a parameter.
  The result is the value returned and what \<open>console.error\<close> was given.
\<close>

definition classifyStocks ::
  "(jsstring \<Rightarrow> exn + jsval) \<Rightarrow> exn + jsstring option \<Rightarrow> exn + (jsval \<times> (string \<times> exn) list)" where
  "classifyStocks json_parse generated =
     bindE generated (\<lambda>text.
     case text of
       None \<Rightarrow> Inr (Arr [], [])
     | Some t \<Rightarrow>
         if t \<noteq> [] then
           (case json_parse t of
              Inr v \<Rightarrow> Inr (v, [])
            | Inl e \<Rightarrow> Inr (Arr [], [(''Failed to parse JSON'', e)]))
         else Inr (Arr [], []))"

section \<open>Formulations of the specification\<close>

text \<open>
  The percentage in the second form the specification gives,
  \<open>pct = (close - prevClose) / prevClose * 100\<close> with \<open>prevClose = close - change\<close>,
  evaluated with the operations of the language.
\<close>

definition pct_from_prev_close :: "jsnum \<Rightarrow> jsnum \<Rightarrow> jsnum" where
  "pct_from_prev_close close0 change =
     (let prevClose = fsub close0 change
      in if \<not> is_zero prevClose then fmul (fdiv (fsub close0 prevClose) prevClose) (Fin 100)
         else Fin 0)"



section \<open>Row and payload shapes\<close>

text \<open>
  A row counts as valid when the text of its close and of its change parse to numbers and
  the close is not zero: the negation of the test of lines 71 and 101.
\<close>

definition twse_row_valid :: "jsval \<Rightarrow> bool" where
  "twse_row_valid row =
     (case (get_index row 7, get_index row 8) of
        (Inr (Str s7), Inr (Str s8)) \<Rightarrow>
          \<not> isNaN (twse_close s7) \<and> \<not> isNaN (twse_change s8) \<and> \<not> is_zero (twse_close s7)
      | _ \<Rightarrow> False)"

definition tpex_row_valid :: "builtins \<Rightarrow> jsval \<Rightarrow> bool" where
  "tpex_row_valid B row =
     (case (bindE (get_index row 2) (tpex_field B), bindE (get_index row 3) (tpex_field B)) of
        (Inr closeStr, Inr changeStr) \<Rightarrow>
          \<not> isNaN (parseFloat closeStr) \<and> \<not> isNaN (parseFloat changeStr)
          \<and> \<not> is_zero (parseFloat closeStr)
      | _ \<Rightarrow> False)"

definition is_primitive :: "jsval \<Rightarrow> bool" where
  "is_primitive v = (case v of Arr xs \<Rightarrow> False | Obj kvs \<Rightarrow> False | _ \<Rightarrow> True)"

text \<open>\<open>row[i]\<close> can be read and is a string; \<open>row[i]\<close> can be read and is a primitive value.\<close>

definition string_at :: "jsval \<Rightarrow> nat \<Rightarrow> bool" where
  "string_at row i = (case get_index row i of Inr (Str s) \<Rightarrow> True | _ \<Rightarrow> False)"

definition primitive_at :: "jsval \<Rightarrow> nat \<Rightarrow> bool" where
  "primitive_at row i = (case get_index row i of Inr v \<Rightarrow> is_primitive v | Inl e \<Rightarrow> False)"

text \<open>
  An exchange-1 row the callback can process: a value with strings at the positions 3, 7
  and 8, where it calls \<open>replace\<close>.
\<close>

definition twse_row_ok :: "jsval \<Rightarrow> bool" where
  "twse_row_ok row = (string_at row 3 \<and> string_at row 7 \<and> string_at row 8)"

text \<open>
  An exchange-1 payload the normalizer can process: a value other than \<open>undefined\<close> and
  \<open>null\<close> whose \<open>data\<close> is missing or falsy, or an array of such rows.
\<close>

definition twse_payload_ok :: "jsval \<Rightarrow> bool" where
  "twse_payload_ok json =
     (case get_prop json (ascii ''data'') of
        Inl e \<Rightarrow> False
      | Inr d \<Rightarrow>
          \<not> truthy d \<or> (case d of Arr rows \<Rightarrow> list_all twse_row_ok rows | _ \<Rightarrow> False))"

text \<open>
  A code whose \<open>length\<close> the exchange-2 callback can read and compare: any value other
  than \<open>undefined\<close> and \<open>null\<close> (a string, a number, a boolean, an array), for an object
  provided its own \<open>length\<close>, if any, is a primitive value.
\<close>

definition tpex_code_ok :: "jsval \<Rightarrow> bool" where
  "tpex_code_ok c =
     (case c of
        Undefined \<Rightarrow> False
      | Null \<Rightarrow> False
      | Obj kvs \<Rightarrow> (case map_of kvs (ascii ''length'') of None \<Rightarrow> True | Some l \<Rightarrow> is_primitive l)
      | _ \<Rightarrow> True)"

text \<open>
  An exchange-2 row the callback can process: a value with such a code at position 0 and
  with missing or primitive values at the positions 2, 3 and 8.
\<close>

definition tpex_row_ok :: "jsval \<Rightarrow> bool" where
  "tpex_row_ok row =
     (case get_index row 0 of
        Inl e \<Rightarrow> False
      | Inr c \<Rightarrow> tpex_code_ok c \<and> primitive_at row 2 \<and> primitive_at row 3 \<and> primitive_at row 8)"

text \<open>A container of exchange-2 rows: missing or falsy, or an array of such rows.\<close>

definition rows_ok :: "jsval \<Rightarrow> bool" where
  "rows_ok d = (case d of Arr rows \<Rightarrow> list_all tpex_row_ok rows | _ \<Rightarrow> False)"

definition container_ok :: "jsval \<Rightarrow> bool" where
  "container_ok d = (\<not> truthy d \<or> rows_ok d)"

text \<open>
  The fallbacks of an exchange-2 payload: a truthy \<open>data\<close> is an array of such rows;
  otherwise \<open>aaData\<close> is such a container.
\<close>

definition fallback_ok :: "jsval \<Rightarrow> bool" where
  "fallback_ok json =
     (case get_prop json (ascii ''data'') of
        Inl e \<Rightarrow> False
      | Inr d \<Rightarrow>
          if truthy d then rows_ok d
          else (case get_prop json (ascii ''aaData'') of
                  Inl e \<Rightarrow> False
                | Inr a \<Rightarrow> container_ok a))"

text \<open>
  An exchange-2 payload the normalizer can process: a value other than \<open>undefined\<close> and
  \<open>null\<close> whose \<open>tables\<close> is a non-empty array with such a container as the \<open>data\<close> of
  its first element, or whose \<open>tables\<close> is missing, falsy or an empty array and whose
  fallbacks are as above.
\<close>

definition tpex_payload_ok :: "jsval \<Rightarrow> bool" where
  "tpex_payload_ok json =
     (case get_prop json (ascii ''tables'') of
        Inl e \<Rightarrow> False
      | Inr t \<Rightarrow>
          (case t of
             Arr ts \<Rightarrow>
               (case ts of
                  [] \<Rightarrow> fallback_ok json
                | t0 # rest \<Rightarrow>
                    (case get_prop t0 (ascii ''data'') of
                       Inl e \<Rightarrow> False
                     | Inr d \<Rightarrow> container_ok d))
           | _ \<Rightarrow> \<not> truthy t \<and> fallback_ok json))"

section \<open>Example inputs\<close>

text \<open>
  An instance of the three library parameters, for evaluating payloads whose cells are all
  strings: none of the three is consulted there.
\<close>

definition B0 :: builtins where
  "B0 = \<lparr>number_to_string = (\<lambda>v. []), string_to_number = (\<lambda>s. NaN),
         array_to_string = (\<lambda>xs. Inr [])\<rparr>"

definition S :: "string \<Rightarrow> jsval" where
  "S s = Str (ascii s)"

text \<open>The two payloads of the end-to-end scenario.\<close>

definition example_twse_row :: jsval where
  "example_twse_row =
     Arr [S ''2330'', S ''TSMC'', S [], S [], S [], S [], S [], S ''600.00'', S ''+10.00<b></b>'']"

definition example_twse :: jsval where
  "example_twse = Obj [(ascii ''data'', Arr [example_twse_row])]"

definition example_tpex_row :: jsval where
  "example_tpex_row =
     Arr [S ''5678'', S ''SmallCo'', S ''50'', S ''-2'', S [], S [], S [], S [], S ''1000'']"

definition example_tpex :: jsval where
  "example_tpex = Obj [(ascii ''tables'', Arr [Obj [(ascii ''data'', Arr [example_tpex_row])]])]"

text \<open>An exchange-2 payload that has its rows under \<open>data\<close> and no \<open>tables\<close>.\<close>

definition tpex_data_only :: jsval where
  "tpex_data_only = Obj [(ascii ''data'', Arr [example_tpex_row])]"

definition smallco :: stock where
  "smallco = \<lparr>code = S ''5678'', name = S ''SmallCo'',
              pct = Fin (- (8660768514174031 / 2251799813685248)), close = Fin 50,
              amount = ascii ''1000''\<rparr>"

definition tsmc :: stock where
  "tsmc = \<lparr>code = S ''2330'', name = S ''TSMC'',
           pct = Fin (1908304926851905 / 1125899906842624), close = Fin 600, amount = []\<rparr>"

text \<open>An exchange-1 payload whose only row stops after the name.\<close>

definition twse_short_row :: jsval where
  "twse_short_row = Obj [(ascii ''data'', Arr [Arr [S ''2330'', S ''TSMC'']])]"

text \<open>An exchange-2 payload whose only row is empty.\<close>

definition tpex_empty_row :: jsval where
  "tpex_empty_row = Obj [(ascii ''data'', Arr [Arr []])]"

text \<open>An exchange-1 payload with close 10.1 and change 0.1.\<close>

definition tcc :: stock where
  "tcc = \<lparr>code = S ''1101'', name = S ''TCC'', pct = Fin 1,
          close = Fin (5685794529555251 / 562949953421312), amount = ascii ''1000''\<rparr>"

definition rounding_twse :: jsval where
  "rounding_twse =
     Obj [(ascii ''data'',
       Arr [Arr [S ''1101'', S ''TCC'', S [], S ''1,000'', S [], S [], S [],
                 S ''10.1'', S ''0.1'']])]"

text \<open>A second exchange-1 row, whose close is two dashes, and one with close zero.\<close>

definition twse_no_quote_row :: jsval where
  "twse_no_quote_row =
     Arr [S ''9999'', S ''Halted'', S [], S ''0'', S [], S [], S [], S ''--'', S ''0.00'']"

definition twse_zero_row :: jsval where
  "twse_zero_row =
     Arr [S ''9998'', S ''Zero'', S [], S ''0'', S [], S [], S [], S ''0.00'', S ''0.00'']"

definition twse_mixed :: jsval where
  "twse_mixed =
     Obj [(ascii ''data'',
       Arr [twse_no_quote_row, example_twse_row, twse_zero_row])]"

definition tpex_no_quote_row :: jsval where
  "tpex_no_quote_row = Arr [S ''9999'', S ''Halted'', S ''---'', S ''1'']"

definition tpex_mixed :: jsval where
  "tpex_mixed = Obj [(ascii ''aaData'', Arr [example_tpex_row, tpex_no_quote_row])]"

text \<open>Records for the map: a code listed on both exchanges, and the code \<open>__proto__\<close>.\<close>

definition listed :: "string \<Rightarrow> rat \<Rightarrow> stock" where
  "listed c p = \<lparr>code = S c, name = S ''Name'', pct = Fin p, close = Fin 10, amount = ascii ''0''\<rparr>"

text \<open>
  An exchange-1 payload of three rows, the second with the change text \<open>Infinity\<close>.
\<close>

definition infinity_twse :: jsval where
  "infinity_twse =
     Obj [(ascii ''data'',
       Arr [Arr [S ''1111'', S ''One'', S [], S ''0'', S [], S [], S [], S ''101'', S ''1''],
            Arr [S ''2222'', S ''Odd'', S [], S ''0'', S [], S [], S [], S ''1'', S ''Infinity''],
            Arr [S ''3333'', S ''Two'', S [], S ''0'', S [], S [], S [], S ''102'', S ''2'']])]"

definition inf_one :: stock where
  "inf_one = \<lparr>code = S ''1111'', name = S ''One'', pct = Fin 1, close = Fin 101, amount = ascii ''0''\<rparr>"

definition inf_odd :: stock where
  "inf_odd = \<lparr>code = S ''2222'', name = S ''Odd'', pct = NaN, close = Fin 1, amount = ascii ''0''\<rparr>"

definition inf_two :: stock where
  "inf_two = \<lparr>code = S ''3333'', name = S ''Two'', pct = Fin 2, close = Fin 102, amount = ascii ''0''\<rparr>"



text \<open>
  Exchange-2 payloads: one whose code is the number 5678, one whose \<open>tables\<close> holds an
  empty object, one whose only row holds \<open>null\<close> as its code.
\<close>

definition tpex_numeric_code :: jsval where
  "tpex_numeric_code =
     Obj [(ascii ''data'', Arr [Arr [Num (Fin 5678), S ''SmallCo'', S ''50'', S ''-2'']])]"

definition tpex_tables_empty_object :: jsval where
  "tpex_tables_empty_object = Obj [(ascii ''tables'', Arr [Obj []])]"

definition tpex_null_code :: jsval where
  "tpex_null_code = Obj [(ascii ''aaData'', Arr [example_tpex_row, Arr [Null, S ''NoCode'']])]"

text \<open>
  What \<open>JSON.parse\<close> answers on the three texts of the examples: \<open>null\<close> and \<open>{}\<close>
  are JSON texts, \<open>not json\<close> is not. (No other text is evaluated.)
\<close>

definition json_parse_samples :: "jsstring \<Rightarrow> exn + jsval" where
  "json_parse_samples t =
     (if t = ascii ''null'' then Inr Null
      else if t = ascii ''{}'' then Inr (Obj [])
      else Inl (SyntaxError ''Unexpected token''))"

section \<open>Properties\<close>

subsection \<open>Classification client\<close>

text \<open>
  C9, as stated, fails. Nothing after \<open>JSON.parse\<close> looks at the shape of what was parsed:
  the text \<open>null\<close> is valid JSON and not an array of category groups, and \<open>classifyStocks\<close>
  returns \<open>null\<close> for it, not the empty array; for the text \<open>{}\<close> it returns the empty
  object.
\<close>

theorem classifyStocks_returns_any_json_counterexample:
  "json_parse_samples (ascii ''null'') = Inr Null
   \<and> classifyStocks json_parse_samples (Inr (Some (ascii ''null''))) = Inr (Null, [])
   \<and> classifyStocks json_parse_samples (Inr (Some (ascii ''null''))) \<noteq> Inr (Arr [], [])
   \<and> classifyStocks json_parse_samples (Inr (Some (ascii ''{}''))) = Inr (Obj [], [])"
  by code_simp

text \<open>
  C9, amended. When the model's output text is absent (or the empty string), or is text that
  \<open>JSON.parse\<close> rejects, \<open>classifyStocks\<close> returns the empty array and throws
  nothing; nothing is logged but a parse failure. Any other text is returned as
  \<open>JSON.parse\<close> reads it, whatever its shape.
\<close>

theorem classifyStocks_degrades_to_empty:
  "((case t of None \<Rightarrow> True | Some s \<Rightarrow> s = [] \<or> (\<exists>e. json_parse s = Inl e)) \<longrightarrow>
      (\<exists>log. classifyStocks json_parse (Inr t) = Inr (Arr [], log)
           \<and> (\<forall>entry\<in>set log. \<exists>e. entry = (''Failed to parse JSON'', e))))
   \<and> (s' \<noteq> [] \<and> json_parse s' = Inr v \<longrightarrow>
        classifyStocks json_parse (Inr (Some s')) = Inr (v, []))"
proof (intro conjI impI)
  assume h: "case t of None \<Rightarrow> True | Some s \<Rightarrow> s = [] \<or> (\<exists>e. json_parse s = Inl e)"
  show "\<exists>log. classifyStocks json_parse (Inr t) = Inr (Arr [], log)
           \<and> (\<forall>entry\<in>set log. \<exists>e. entry = (''Failed to parse JSON'', e))"
  proof (cases t)
    case None
    then show ?thesis by (simp add: classifyStocks_def bindE_def)
  next
    case (Some s)
    show ?thesis
    proof (cases "s = []")
      case True
      with Some show ?thesis by (simp add: classifyStocks_def bindE_def)
    next
      case False
      with h Some obtain e where "json_parse s = Inl e" by auto
      with Some False show ?thesis by (simp add: classifyStocks_def bindE_def)
    qed
  qed
next
  assume "s' \<noteq> [] \<and> json_parse s' = Inr v"
  then show "classifyStocks json_parse (Inr (Some s')) = Inr (v, [])"
    by (simp add: classifyStocks_def bindE_def)
qed

theorem classifyStocks_degrades_to_empty_witness:
  "(case Some (ascii ''not json'') of None \<Rightarrow> True
    | Some s \<Rightarrow> s = [] \<or> (\<exists>e. json_parse_samples s = Inl e))
   \<and> (\<exists>log. classifyStocks json_parse_samples (Inr (Some (ascii ''not json''))) =
         Inr (Arr [], log))
   \<and> ascii ''{}'' \<noteq> [] \<and> json_parse_samples (ascii ''{}'') = Inr (Obj [])
   \<and> classifyStocks json_parse_samples (Inr (Some (ascii ''{}''))) = Inr (Obj [], [])"
proof -
  have h: "case Some (ascii ''not json'') of None \<Rightarrow> True
           | Some s \<Rightarrow> s = [] \<or> (\<exists>e. json_parse_samples s = Inl e)"
    by (simp add: json_parse_samples_def ascii_def)
  have g: "ascii ''{}'' \<noteq> [] \<and> json_parse_samples (ascii ''{}'') = Inr (Obj [])"
    by (simp add: json_parse_samples_def ascii_def)
  note t = classifyStocks_degrades_to_empty
  from t [where t = "Some (ascii ''not json'')" and json_parse = json_parse_samples] h
  have a: "\<exists>log. classifyStocks json_parse_samples (Inr (Some (ascii ''not json''))) =
      Inr (Arr [], log)"
    by blast
  from t [where s' = "ascii ''{}''" and json_parse = json_parse_samples and v = "Obj []"] g
  have b: "classifyStocks json_parse_samples (Inr (Some (ascii ''{}''))) = Inr (Obj [], [])"
    by blast
  from h g a b show ?thesis by blast
qed

subsection \<open>Endpoint: empty aggregate and failures\<close>

text \<open>
  C5. When both normalizers return no record, the endpoint answers 404 with the message
  \<open>No market data available today.\<close>, and nothing is logged.
\<close>

theorem empty_aggregate_is_404:
  assumes "processTwseData twseData = Inr []" and "processTpexData B tpexData = Inr []"
  shows "market_data B twse_first (Inr (Inr twseData)) (Inr (Inr tpexData)) now =
           (Response 404 (ErrorBody (ascii ''No market data available today.'')), [])"
  using assms by (simp add: market_data_def try_block_def bindE_def)

theorem empty_aggregate_is_404_witness:
  "processTwseData (Obj []) = Inr [] \<and> processTpexData B0 (Obj []) = Inr []
   \<and> market_data B0 True (Inr (Inr (Obj []))) (Inr (Inr (Obj []))) [] =
       (Response 404 (ErrorBody (ascii ''No market data available today.'')), [])"
proof -
  have h1: "processTwseData (Obj []) = Inr []"
    by (simp add: processTwseData_def bindE_def)
  have h2: "processTpexData B0 (Obj []) = Inr []"
    by (simp add: processTpexData_def tpex_container_def bindE_def)
  show ?thesis
    using h1 h2 empty_aggregate_is_404 [OF h1 h2, of True "[]"] by simp
qed



subsection \<open>Helper lemmas: exceptions and lists\<close>

lemma bindE_Inr_iff: "bindE m f = Inr y \<longleftrightarrow> (\<exists>x. m = Inr x \<and> f x = Inr y)"
  by (cases m) (simp_all add: bindE_def)

lemma bindE_Inr [simp]: "bindE (Inr x) f = f x"
  by (simp add: bindE_def)

lemma bindE_Inl [simp]: "bindE (Inl e) f = Inl e"
  by (simp add: bindE_def)

lemma map_exn_Inr:
  "map_exn f xs = Inr ys \<Longrightarrow> list_all2 (\<lambda>x y. f x = Inr y) xs ys"
proof (induction xs arbitrary: ys)
  case Nil
  then show ?case by simp
next
  case (Cons x xs)
  from Cons.prems obtain y ys' where
    "f x = Inr y" "map_exn f xs = Inr ys'" "ys = y # ys'"
    by (auto simp: bindE_Inr_iff)
  with Cons.IH show ?case by simp
qed

lemma map_exn_total:
  "\<forall>x\<in>set xs. \<exists>y. f x = Inr y \<Longrightarrow> \<exists>ys. map_exn f xs = Inr ys"
proof (induction xs)
  case Nil
  then show ?case by simp
next
  case (Cons x xs)
  then obtain y ys where "f x = Inr y" "map_exn f xs = Inr ys" by auto
  then show ?case by simp
qed

lemma filter_non_null_Nil [simp]: "filter_non_null [] = []"
  by (simp add: filter_non_null_def List.map_filter_def)

lemma filter_non_null_Cons:
  "filter_non_null (y # ys) = (case y of None \<Rightarrow> filter_non_null ys | Some s \<Rightarrow> s # filter_non_null ys)"
  by (cases y) (simp_all add: filter_non_null_def List.map_filter_def)

lemma set_filter_non_null: "set (filter_non_null ys) = {s. Some s \<in> set ys}"
  by (induction ys) (auto simp: filter_non_null_Cons split: option.splits)

lemma mem_filter_non_null_map_exn:
  assumes "map_exn f rows = Inr ys" and "s \<in> set (filter_non_null ys)"
  shows "\<exists>row\<in>set rows. f row = Inr (Some s)"
proof -
  from assms(2) have "Some s \<in> set ys" by (simp add: set_filter_non_null)
  then obtain i where i: "i < length ys" "ys ! i = Some s" by (auto simp: in_set_conv_nth)
  from map_exn_Inr [OF assms(1)] have l2: "list_all2 (\<lambda>x y. f x = Inr y) rows ys" .
  then have "length rows = length ys" by (rule list_all2_lengthD)
  moreover from l2 i have "f (rows ! i) = Inr (ys ! i)"
    by (simp add: list_all2_conv_all_nth)
  ultimately show ?thesis using i by (metis nth_mem)
qed

lemma replace_receiver_Inr_iff: "replace_receiver v = Inr s \<longleftrightarrow> v = Str s"
  by (cases v) auto

subsection \<open>Helper lemmas: what a row callback returns\<close>

lemma twse_row_Some:
  assumes "twse_row row = Inr (Some s)"
  shows "\<exists>code0 name0 s3 s7 s8.
           get_index row 0 = Inr code0 \<and> get_index row 1 = Inr name0
           \<and> get_index row 3 = Inr (Str s3) \<and> get_index row 7 = Inr (Str s7)
           \<and> get_index row 8 = Inr (Str s8)
           \<and> \<not> isNaN (twse_close s7) \<and> \<not> isNaN (twse_change s8) \<and> \<not> is_zero (twse_close s7)
           \<and> s = \<lparr>code = code0, name = name0,
                   pct = compute_pct (twse_close s7) (twse_change s8),
                   close = twse_close s7, amount = remove_commas s3\<rparr>"
  using assms
  by (auto simp: twse_row_def bindE_Inr_iff replace_receiver_Inr_iff Let_def split: if_splits)

lemma twse_row_None:
  assumes "twse_row row = Inr r" and "\<not> twse_row_valid row"
  shows "r = None"
  using assms
  by (auto simp: twse_row_def twse_row_valid_def bindE_Inr_iff replace_receiver_Inr_iff Let_def
           split: if_splits)

lemma twse_row_valid_not_None:
  assumes "twse_row row = Inr r" and "twse_row_valid row"
  shows "r \<noteq> None"
  using assms
  by (auto simp: twse_row_def twse_row_valid_def bindE_Inr_iff replace_receiver_Inr_iff Let_def
           split: if_splits)

lemma twse_row_Some_valid:
  assumes "twse_row row = Inr (Some s)"
  shows "twse_row_valid row"
  using twse_row_Some [OF assms] by (auto simp: twse_row_valid_def)

lemma tpex_row_Some:
  assumes "tpex_row B row = Inr (Some s)"
  shows "\<exists>code0 name0 closeStr changeStr amountStr.
           get_index row 0 = Inr code0 \<and> get_index row 1 = Inr name0
           \<and> bindE (get_index row 2) (tpex_field B) = Inr closeStr
           \<and> bindE (get_index row 3) (tpex_field B) = Inr changeStr
           \<and> bindE (get_index row 8) (tpex_field B) = Inr amountStr
           \<and> \<not> isNaN (parseFloat closeStr) \<and> \<not> isNaN (parseFloat changeStr)
           \<and> \<not> is_zero (parseFloat closeStr)
           \<and> s = \<lparr>code = code0, name = name0,
                   pct = compute_pct (parseFloat closeStr) (parseFloat changeStr),
                   close = parseFloat closeStr, amount = amountStr\<rparr>"
  using assms
  by (auto simp: tpex_row_def bindE_Inr_iff Let_def split: if_splits)

lemma tpex_row_None:
  assumes "tpex_row B row = Inr r" and "\<not> tpex_row_valid B row"
  shows "r = None"
  using assms
  by (auto simp: tpex_row_def tpex_row_valid_def bindE_Inr_iff Let_def split: if_splits)

lemma tpex_row_Some_valid:
  assumes "tpex_row B row = Inr (Some s)"
  shows "tpex_row_valid B row"
  using tpex_row_Some [OF assms] by (auto simp: tpex_row_valid_def)

subsection \<open>Helper lemmas: what a normalizer returns\<close>

lemma processTwseData_Inr:
  assumes "processTwseData json = Inr out"
  shows "\<exists>d. get_prop json (ascii ''data'') = Inr d
           \<and> (if truthy d then \<exists>rows ys. d = Arr rows \<and> map_exn twse_row rows = Inr ys
                                       \<and> out = filter_non_null ys
               else out = [])"
proof -
  from assms obtain d where d: "get_prop json (ascii ''data'') = Inr d"
    and r: "(if \<not> truthy d then Inr []
             else case d of
               Arr rows \<Rightarrow> bindE (map_exn twse_row rows) (\<lambda>ys. Inr (filter_non_null ys))
             | _ \<Rightarrow> Inl (TypeError ''json.data.map is not a function'')) = Inr out"
    by (auto simp: processTwseData_def bindE_Inr_iff)
  show ?thesis
  proof (cases "truthy d")
    case False
    with d r show ?thesis by auto
  next
    case True
    with r obtain rows where "d = Arr rows" by (cases d) auto
    with True r d show ?thesis by (auto simp: bindE_Inr_iff)
  qed
qed

lemma processTpexData_Inr:
  assumes "processTpexData B json = Inr out"
  shows "\<exists>d. tpex_container B json = Inr d
           \<and> (if truthy d \<and> get_prop d (ascii ''length'') \<noteq> Inr (Num (Fin 0))
               then \<exists>rows ys. d = Arr rows \<and> map_exn (tpex_row B) rows = Inr ys
                             \<and> out = filter_non_null ys
               else out = [])"
proof -
  from assms obtain d where d: "tpex_container B json = Inr d"
    and r: "(if \<not> truthy d then Inr []
             else bindE (get_prop d (ascii ''length'')) (\<lambda>len.
               if len = Num (Fin 0) then Inr []
               else case d of
                 Arr rows \<Rightarrow> bindE (map_exn (tpex_row B) rows) (\<lambda>ys. Inr (filter_non_null ys))
               | _ \<Rightarrow> Inl (TypeError ''data.map is not a function''))) = Inr out"
    by (auto simp: processTpexData_def bindE_Inr_iff)
  show ?thesis
  proof (cases "truthy d \<and> get_prop d (ascii ''length'') \<noteq> Inr (Num (Fin 0))")
    case False
    show ?thesis
    proof (cases "truthy d")
      case nt: False
      with d r show ?thesis by auto
    next
      case True
      with False have "get_prop d (ascii ''length'') = Inr (Num (Fin 0))" by simp
      with True r have "out = []" by simp
      with d False show ?thesis by auto
    qed
  next
    case True
    with r obtain rows where "d = Arr rows" by (cases d) (auto simp: bindE_Inr_iff)
    with True r d show ?thesis by (auto simp: bindE_Inr_iff split: if_splits)
  qed
qed

subsection \<open>Helper lemmas: evaluated examples\<close>

lemma example_twse_eval: "processTwseData example_twse = Inr [tsmc]"
  by code_simp

lemma example_tpex_eval: "processTpexData B0 example_tpex = Inr [smallco]"
  by code_simp

lemma tpex_data_only_eval: "processTpexData B0 tpex_data_only = Inr [smallco]"
  by code_simp

subsection \<open>Helper lemmas: payloads without rows\<close>

lemma length_prop_Arr [simp]:
  "get_prop (Arr xs) (ascii ''length'') = Inr (Num (Fin (of_nat (length xs))))"
  by simp

lemma tpex_container_fallback:
  assumes "get_prop json (ascii ''tables'') = Inr t" and "\<not> truthy t \<or> t = Arr []"
    and "get_prop json (ascii ''data'') = Inr d"
    and "get_prop json (ascii ''aaData'') = Inr a"
  shows "tpex_container B json = Inr (if truthy d then d else if truthy a then a else Arr [])"
  using assms by (auto simp: tpex_container_def)

lemma processTpexData_Arr:
  assumes "tpex_container B json = Inr (Arr rows)"
  shows "processTpexData B json =
           (if rows = [] then Inr []
            else bindE (map_exn (tpex_row B) rows) (\<lambda>ys. Inr (filter_non_null ys)))"
  using assms by (simp add: processTpexData_def)

lemma tpex_no_rows:
  assumes "get_prop json (ascii ''tables'') = Inr t" and "\<not> truthy t \<or> t = Arr []"
    and "get_prop json (ascii ''data'') = Inr d" and "\<not> truthy d \<or> d = Arr []"
    and "get_prop json (ascii ''aaData'') = Inr a" and "\<not> truthy a \<or> a = Arr []"
  shows "processTpexData B json = Inr []"
proof -
  have c: "tpex_container B json = Inr (if truthy d then d else if truthy a then a else Arr [])"
    using assms(1,2,3,5) by (rule tpex_container_fallback)
  from assms(4,6) have "(if truthy d then d else if truthy a then a else Arr []) = Arr []"
    by auto
  with c have "tpex_container B json = Inr (Arr [])" by simp
  then show ?thesis by (simp add: processTpexData_Arr)
qed

subsection \<open>Exchange 2 without \<open>tables\<close>\<close>

text \<open>
  C8, as stated, fails: a payload with no \<open>tables\<close> and its rows under \<open>data\<close> yields
  those rows.
\<close>

theorem tpex_without_tables_counterexample:
  "get_prop tpex_data_only (ascii ''tables'') = Inr Undefined
   \<and> processTpexData B0 tpex_data_only = Inr [smallco]
   \<and> processTpexData B0 tpex_data_only \<noteq> Inr []"
  by (simp add: tpex_data_only_eval) (simp add: tpex_data_only_def ascii_def)

text \<open>
  C8, amended. When \<open>tables\<close> is missing (or another falsy value) or an empty array, and
  each of the fallbacks \<open>data\<close> and \<open>aaData\<close> is missing (or falsy) or an empty array,
  the exchange-2 normalizer returns no rows.
\<close>

theorem tpex_without_any_container_is_empty:
  assumes "get_prop json (ascii ''tables'') = Inr t" and "\<not> truthy t \<or> t = Arr []"
    and "get_prop json (ascii ''data'') = Inr d" and "\<not> truthy d \<or> d = Arr []"
    and "get_prop json (ascii ''aaData'') = Inr a" and "\<not> truthy a \<or> a = Arr []"
  shows "processTpexData B json = Inr []"
  using assms by (rule tpex_no_rows)

theorem tpex_without_any_container_is_empty_witness:
  "get_prop (Obj [(ascii ''tables'', Arr [])]) (ascii ''tables'') = Inr (Arr [])
   \<and> get_prop (Obj [(ascii ''tables'', Arr [])]) (ascii ''data'') = Inr Undefined
   \<and> get_prop (Obj [(ascii ''tables'', Arr [])]) (ascii ''aaData'') = Inr Undefined
   \<and> processTpexData B0 (Obj [(ascii ''tables'', Arr [])]) = Inr []"
proof -
  have h1: "get_prop (Obj [(ascii ''tables'', Arr [])]) (ascii ''tables'') = Inr (Arr [])"
    by simp
  have h2: "get_prop (Obj [(ascii ''tables'', Arr [])]) (ascii ''data'') = Inr Undefined"
    by (simp add: ascii_def)
  have h3: "get_prop (Obj [(ascii ''tables'', Arr [])]) (ascii ''aaData'') = Inr Undefined"
    by (simp add: ascii_def)
  have "processTpexData B0 (Obj [(ascii ''tables'', Arr [])]) = Inr []"
    by (rule tpex_without_any_container_is_empty [OF h1 _ h2 _ h3]) simp_all
  with h1 h2 h3 show ?thesis by simp
qed

subsection \<open>Totality on well-shaped payloads\<close>

lemma string_at_iff: "string_at row i \<longleftrightarrow> (\<exists>s. get_index row i = Inr (Str s))"
  by (auto simp: string_at_def split: sum.splits jsval.splits)

lemma primitive_at_iff:
  "primitive_at row i \<longleftrightarrow> (\<exists>v. get_index row i = Inr v \<and> is_primitive v)"
  by (auto simp: primitive_at_def split: sum.splits)

lemma get_index_total: "get_index row i = Inr v \<Longrightarrow> \<exists>w. get_index row j = Inr w"
  by (cases row) simp_all

lemma get_prop_total: "get_prop json k = Inr v \<Longrightarrow> \<exists>w. get_prop json k' = Inr w"
  by (cases json) simp_all

lemma map_exn_Inr_iff:
  "(\<exists>ys. map_exn f xs = Inr ys) \<longleftrightarrow> (\<forall>x\<in>set xs. \<exists>y. f x = Inr y)"
proof (induction xs)
  case Nil
  show ?case by simp
next
  case (Cons x xs)
  show ?case
  proof (cases "f x")
    case (Inl e)
    then show ?thesis by auto
  next
    case (Inr y)
    with Cons.IH show ?thesis by (auto simp: bindE_Inr_iff)
  qed
qed

lemma map_exn_Inl:
  assumes "x \<in> set xs" and "f x = Inl e"
  shows "\<exists>e'. map_exn f xs = Inl e'"
proof (cases "map_exn f xs")
  case (Inl e')
  then show ?thesis ..
next
  case (Inr ys)
  then have "\<forall>x\<in>set xs. \<exists>y. f x = Inr y" using map_exn_Inr_iff [of f xs] by blast
  with assms show ?thesis by auto
qed

lemma twse_row_total_iff: "(\<exists>r. twse_row row = Inr r) \<longleftrightarrow> twse_row_ok row"
proof
  assume "\<exists>r. twse_row row = Inr r"
  then obtain r where "twse_row row = Inr r" ..
  then show "twse_row_ok row"
    by (auto simp: twse_row_def twse_row_ok_def string_at_iff bindE_Inr_iff
          replace_receiver_Inr_iff Let_def)
next
  assume "twse_row_ok row"
  then obtain s3 s7 s8 where g: "get_index row 3 = Inr (Str s3)"
      "get_index row 7 = Inr (Str s7)" "get_index row 8 = Inr (Str s8)"
    by (auto simp: twse_row_ok_def string_at_iff)
  from get_index_total [OF g(1)] obtain code0 where c0: "get_index row 0 = Inr code0" by blast
  from get_index_total [OF g(1)] obtain name0 where c1: "get_index row 1 = Inr name0" by blast
  show "\<exists>r. twse_row row = Inr r"
    using g c0 c1 by (auto simp: twse_row_def Let_def)
qed

lemma processTwseData_total_iff:
  "(\<exists>out. processTwseData json = Inr out) \<longleftrightarrow> twse_payload_ok json"
proof (cases "get_prop json (ascii ''data'')")
  case (Inl e)
  then show ?thesis by (simp add: processTwseData_def twse_payload_ok_def)
next
  case (Inr d)
  show ?thesis
  proof (cases "truthy d")
    case False
    with Inr show ?thesis by (simp add: processTwseData_def twse_payload_ok_def)
  next
    case True
    show ?thesis
    proof (cases "\<exists>rows. d = Arr rows")
      case False
      with Inr True show ?thesis
        by (cases d) (simp_all add: processTwseData_def twse_payload_ok_def)
    next
      case arr: True
      then obtain rows where d: "d = Arr rows" ..
      have "(\<exists>out. processTwseData json = Inr out) \<longleftrightarrow> (\<exists>ys. map_exn twse_row rows = Inr ys)"
        using Inr d by (auto simp: processTwseData_def bindE_Inr_iff)
      also have "\<dots> \<longleftrightarrow> list_all twse_row_ok rows"
        by (simp add: map_exn_Inr_iff twse_row_total_iff list_all_iff)
      also have "\<dots> \<longleftrightarrow> twse_payload_ok json"
        using Inr d by (simp add: twse_payload_ok_def)
      finally show ?thesis .
    qed
  qed
qed

lemma to_number_primitive: "is_primitive v \<Longrightarrow> \<exists>n. to_number B v = Inr n"
  by (cases v) (simp_all add: is_primitive_def)

lemma tpex_code_total:
  assumes "tpex_code_ok c"
  shows "\<exists>len n. get_prop c (ascii ''length'') = Inr len \<and> to_number B len = Inr n"
proof (cases c)
  case (Obj kvs)
  show ?thesis
  proof (cases "map_of kvs (ascii ''length'')")
    case None
    with Obj show ?thesis by simp
  next
    case (Some l)
    with assms Obj have "is_primitive l" by (simp add: tpex_code_ok_def)
    from to_number_primitive [OF this] Obj Some show ?thesis by simp
  qed
qed (use assms in \<open>simp_all add: tpex_code_ok_def\<close>)

lemma tpex_field_total:
  assumes "is_primitive v"
  shows "\<exists>s. tpex_field B v = Inr s"
  using assms by (cases v) (simp_all add: tpex_field_def is_primitive_def)

lemma tpex_cell_total:
  assumes "primitive_at row i"
  shows "\<exists>v s. get_index row i = Inr v \<and> tpex_field B v = Inr s"
proof -
  from assms obtain v where v: "get_index row i = Inr v" "is_primitive v"
    by (auto simp: primitive_at_iff)
  from tpex_field_total [OF v(2)] v(1) show ?thesis by blast
qed

lemma tpex_row_total:
  assumes "tpex_row_ok row"
  shows "\<exists>r. tpex_row B row = Inr r"
proof -
  from assms obtain code0 where g0: "get_index row 0 = Inr code0" and c0: "tpex_code_ok code0"
    and c: "primitive_at row 2" "primitive_at row 3" "primitive_at row 8"
    by (auto simp: tpex_row_ok_def split: sum.splits)
  from get_index_total [OF g0] obtain name0 where g1: "get_index row 1 = Inr name0" by blast
  from tpex_code_total [OF c0] obtain len n where
    l: "get_prop code0 (ascii ''length'') = Inr len" "to_number B len = Inr n" by blast
  from tpex_cell_total [OF c(1)] obtain r2 closeStr where
    r2: "get_index row 2 = Inr r2" "tpex_field B r2 = Inr closeStr" by blast
  from tpex_cell_total [OF c(2)] obtain r3 changeStr where
    r3: "get_index row 3 = Inr r3" "tpex_field B r3 = Inr changeStr" by blast
  from tpex_cell_total [OF c(3)] obtain r8 amountStr where
    r8: "get_index row 8 = Inr r8" "tpex_field B r8 = Inr amountStr" by blast
  show ?thesis
    using g0 g1 l r2 r3 r8 by (auto simp: tpex_row_def Let_def)
qed

lemma tpex_row_no_code:
  assumes "get_index row 0 = Inr c" and "c = Undefined \<or> c = Null"
  shows "\<exists>e. tpex_row B row = Inl e"
proof -
  from get_index_total [OF assms(1)] obtain name0 where "get_index row 1 = Inr name0" by blast
  with assms show ?thesis by (auto simp: tpex_row_def)
qed

lemma container_ok_total:
  assumes "tpex_container B json = Inr d" and "container_ok d"
  shows "\<exists>out. processTpexData B json = Inr out"
proof (cases "truthy d")
  case False
  with assms(1) show ?thesis by (simp add: processTpexData_def)
next
  case True
  with assms(2) obtain rows where d: "d = Arr rows" and ok: "list_all tpex_row_ok rows"
    by (cases d) (auto simp: container_ok_def rows_ok_def)
  from ok have "\<forall>row\<in>set rows. \<exists>r. tpex_row B row = Inr r"
    by (auto simp: list_all_iff intro: tpex_row_total)
  then obtain ys where "map_exn (tpex_row B) rows = Inr ys"
    using map_exn_Inr_iff [of "tpex_row B" rows] by blast
  with assms(1) d show ?thesis by (simp add: processTpexData_Arr)
qed

lemma tpex_container_tables:
  assumes "get_prop json (ascii ''tables'') = Inr (Arr (t0 # rest))"
  shows "tpex_container B json = get_prop t0 (ascii ''data'')"
proof -
  have "(0::rat) < 1 + of_nat (length rest)"
    by (rule add_pos_nonneg) simp_all
  with assms show ?thesis by (simp add: tpex_container_def)
qed

lemma fallback_ok_total:
  assumes "get_prop json (ascii ''tables'') = Inr t" and "\<not> truthy t \<or> t = Arr []"
    and "fallback_ok json"
  shows "\<exists>out. processTpexData B json = Inr out"
proof -
  from assms(3) obtain d where gd: "get_prop json (ascii ''data'') = Inr d"
    by (auto simp: fallback_ok_def split: sum.splits)
  from get_prop_total [OF gd] obtain a where ga: "get_prop json (ascii ''aaData'') = Inr a"
    by blast
  define c where "c = (if truthy d then d else if truthy a then a else Arr [])"
  have c: "tpex_container B json = Inr c"
    unfolding c_def using assms(1,2) gd ga by (rule tpex_container_fallback)
  have "container_ok c"
  proof (cases "truthy d")
    case True
    with assms(3) gd show ?thesis by (simp add: fallback_ok_def container_ok_def c_def)
  next
    case False
    with assms(3) gd ga have "container_ok a" by (simp add: fallback_ok_def)
    with False show ?thesis by (auto simp: c_def container_ok_def rows_ok_def)
  qed
  with c show ?thesis by (rule container_ok_total)
qed

lemma processTpexData_total:
  assumes "tpex_payload_ok json"
  shows "\<exists>out. processTpexData B json = Inr out"
proof -
  from assms obtain t where gt: "get_prop json (ascii ''tables'') = Inr t"
    by (auto simp: tpex_payload_ok_def split: sum.splits)
  show ?thesis
  proof (cases "\<exists>t0 rest. t = Arr (t0 # rest)")
    case True
    then obtain t0 rest where t: "t = Arr (t0 # rest)" by blast
    with assms gt obtain d where d: "get_prop t0 (ascii ''data'') = Inr d" "container_ok d"
      by (auto simp: tpex_payload_ok_def split: sum.splits)
    from gt t have "tpex_container B json = get_prop t0 (ascii ''data'')"
      by (simp add: tpex_container_tables)
    with d(1) have "tpex_container B json = Inr d" by simp
    then show ?thesis using d(2) by (rule container_ok_total)
  next
    case False
    with assms gt have "(\<not> truthy t \<or> t = Arr []) \<and> fallback_ok json"
      by (cases t) (auto simp: tpex_payload_ok_def split: list.splits)
    then show ?thesis using gt by (blast intro: fallback_ok_total)
  qed
qed

lemma tpex_no_code_throws:
  assumes "tpex_container B json = Inr (Arr rows)" and "row \<in> set rows"
    and "get_index row 0 = Inr c" and "c = Undefined \<or> c = Null"
  shows "\<exists>e. processTpexData B json = Inl e"
proof -
  from tpex_row_no_code [OF assms(3,4)] obtain e where "tpex_row B row = Inl e" ..
  from map_exn_Inl [where f = "tpex_row B", OF assms(2) this] obtain e' where e': "map_exn (tpex_row B) rows = Inl e'" ..
  from assms(2) have "rows \<noteq> []" by auto
  with assms(1) e' show ?thesis by (simp add: processTpexData_Arr)
qed

subsection \<open>The stored percentage\<close>

lemma compute_pct_unfold:
  "compute_pct c ch =
     (if fsub c ch = Fin 0 then Fin 0 else fmul (fdiv ch (fsub c ch)) (Fin 100))"
  by (simp add: compute_pct_def is_zero_def Let_def)

lemma twse_pct:
  assumes "processTwseData json = Inr out" and "s \<in> set out"
  shows "\<exists>rows row s7 s8.
           get_prop json (ascii ''data'') = Inr (Arr rows) \<and> row \<in> set rows
           \<and> get_index row 7 = Inr (Str s7) \<and> get_index row 8 = Inr (Str s8)
           \<and> close s = twse_close s7
           \<and> pct s = compute_pct (twse_close s7) (twse_change s8)"
proof -
  from processTwseData_Inr [OF assms(1)] obtain d where
    d: "get_prop json (ascii ''data'') = Inr d"
    and r: "if truthy d then \<exists>rows ys. d = Arr rows \<and> map_exn twse_row rows = Inr ys
                                   \<and> out = filter_non_null ys
            else out = []"
    by blast
  from r assms(2) obtain rows ys where
    rows: "d = Arr rows" "map_exn twse_row rows = Inr ys" "out = filter_non_null ys"
    by (cases "truthy d") auto
  from mem_filter_non_null_map_exn [OF rows(2)] assms(2) rows(3)
  obtain row where row: "row \<in> set rows" "twse_row row = Inr (Some s)" by blast
  from twse_row_Some [OF row(2)] d rows(1) row(1) show ?thesis by fastforce
qed

lemma tpex_rows_of_output:
  assumes "processTpexData B json = Inr out" and "s \<in> set out"
  shows "\<exists>rows row. tpex_container B json = Inr (Arr rows) \<and> row \<in> set rows
           \<and> tpex_row B row = Inr (Some s)"
proof -
  from processTpexData_Inr [OF assms(1)] obtain d where
    d: "tpex_container B json = Inr d"
    and r: "if truthy d \<and> get_prop d (ascii ''length'') \<noteq> Inr (Num (Fin 0))
            then \<exists>rows ys. d = Arr rows \<and> map_exn (tpex_row B) rows = Inr ys
                          \<and> out = filter_non_null ys
            else out = []"
    by blast
  from r assms(2) obtain rows ys where
    rows: "d = Arr rows" "map_exn (tpex_row B) rows = Inr ys" "out = filter_non_null ys"
    by (cases "truthy d \<and> get_prop d (ascii ''length'') \<noteq> Inr (Num (Fin 0))") auto
  from mem_filter_non_null_map_exn [OF rows(2)] assms(2) rows(3)
  obtain row where row: "row \<in> set rows" "tpex_row B row = Inr (Some s)" by blast
  with d rows(1) show ?thesis by blast
qed

lemma tpex_pct:
  assumes "processTpexData B json = Inr out" and "s \<in> set out"
  shows "\<exists>rows row closeStr changeStr.
           tpex_container B json = Inr (Arr rows) \<and> row \<in> set rows
           \<and> bindE (get_index row 2) (tpex_field B) = Inr closeStr
           \<and> bindE (get_index row 3) (tpex_field B) = Inr changeStr
           \<and> close s = parseFloat closeStr
           \<and> pct s = compute_pct (parseFloat closeStr) (parseFloat changeStr)"
proof -
  from tpex_rows_of_output [OF assms] obtain rows row where
    row: "tpex_container B json = Inr (Arr rows)" "row \<in> set rows"
         "tpex_row B row = Inr (Some s)"
    by blast
  from tpex_row_Some [OF row(3)] row(1,2) show ?thesis by fastforce
qed

lemma rounding_twse_eval: "processTwseData rounding_twse = Inr [tcc]"
  by code_simp

text \<open>
  C1, as stated, fails in its second form. With close 10.1 and change 0.1 the stored
  percentage is \<open>0.1 / (10.1 - 0.1) * 100 = 1\<close>, while
  \<open>(10.1 - (10.1 - 0.1)) / (10.1 - 0.1) * 100\<close> is the double
  \<open>9007199254740959 / 2^53\<close>, which is the double that the literal \<open>0.9999999999999963\<close>
  denotes: the subtraction \<open>10.1 - 10\<close> does not give back the double \<open>0.1\<close>.
\<close>

theorem pct_second_form_counterexample:
  "processTwseData rounding_twse = Inr [tcc] \<and> pct tcc = Fin 1
   \<and> close tcc = twse_close (ascii ''10.1'')
   \<and> pct_from_prev_close (twse_close (ascii ''10.1'')) (twse_change (ascii ''0.1'')) =
       Fin (9007199254740959 / 9007199254740992)
   \<and> parseFloat (ascii ''0.9999999999999963'') = Fin (9007199254740959 / 9007199254740992)
   \<and> parseFloat (ascii ''0.9999999999999964'') \<noteq> Fin (9007199254740959 / 9007199254740992)
   \<and> pct tcc \<noteq> pct_from_prev_close (twse_close (ascii ''10.1'')) (twse_change (ascii ''0.1''))"
proof -
  have d: "parseFloat (ascii ''0.9999999999999963'') = Fin (9007199254740959 / 9007199254740992)"
    by code_simp
  have e: "parseFloat (ascii ''0.9999999999999964'') \<noteq> Fin (9007199254740959 / 9007199254740992)"
    by code_simp
  have a: "pct tcc = Fin 1" by (simp add: tcc_def)
  have b: "close tcc = twse_close (ascii ''10.1'')" by code_simp
  have c: "pct_from_prev_close (twse_close (ascii ''10.1'')) (twse_change (ascii ''0.1'')) =
       Fin (9007199254740959 / 9007199254740992)" by code_simp
  from a b c d e rounding_twse_eval show ?thesis by simp
qed

text \<open>
  C1, amended. For every record a normalizer returns, there is a row of the payload whose
  close text parses to the record's \<open>close\<close> and whose change text parses to a \<open>change\<close>
  such that, in the arithmetic of the language (each operation rounded to a double),
  \<open>pct\<close> is \<open>(change / (close - change)) * 100\<close> when \<open>close - change\<close> is not zero, and
  \<open>0\<close> when it is.
\<close>

theorem stored_pct_formula:
  "(processTwseData json = Inr out \<and> s \<in> set out \<longrightarrow>
      (\<exists>rows row s7 s8.
          get_prop json (ascii ''data'') = Inr (Arr rows) \<and> row \<in> set rows
          \<and> get_index row 7 = Inr (Str s7) \<and> get_index row 8 = Inr (Str s8)
          \<and> close s = twse_close s7
          \<and> pct s = (if fsub (close s) (twse_change s8) = Fin 0 then Fin 0
                      else fmul (fdiv (twse_change s8) (fsub (close s) (twse_change s8))) (Fin 100))))
   \<and> (processTpexData B json = Inr out \<and> s \<in> set out \<longrightarrow>
      (\<exists>rows row closeStr changeStr.
          tpex_container B json = Inr (Arr rows) \<and> row \<in> set rows
          \<and> bindE (get_index row 2) (tpex_field B) = Inr closeStr
          \<and> bindE (get_index row 3) (tpex_field B) = Inr changeStr
          \<and> close s = parseFloat closeStr
          \<and> pct s = (if fsub (close s) (parseFloat changeStr) = Fin 0 then Fin 0
                      else fmul (fdiv (parseFloat changeStr) (fsub (close s) (parseFloat changeStr)))
                             (Fin 100))))"
proof (intro conjI impI)
  assume "processTwseData json = Inr out \<and> s \<in> set out"
  then have "processTwseData json = Inr out" "s \<in> set out" by simp_all
  from twse_pct [OF this] obtain rows row s7 s8 where
    h: "get_prop json (ascii ''data'') = Inr (Arr rows)" "row \<in> set rows"
       "get_index row 7 = Inr (Str s7)" "get_index row 8 = Inr (Str s8)"
       "close s = twse_close s7" "pct s = compute_pct (twse_close s7) (twse_change s8)"
    by blast
  from h(5,6) have "pct s = (if fsub (close s) (twse_change s8) = Fin 0 then Fin 0
       else fmul (fdiv (twse_change s8) (fsub (close s) (twse_change s8))) (Fin 100))"
    by (simp add: compute_pct_unfold)
  with h(1-5) show "\<exists>rows row s7 s8.
          get_prop json (ascii ''data'') = Inr (Arr rows) \<and> row \<in> set rows
          \<and> get_index row 7 = Inr (Str s7) \<and> get_index row 8 = Inr (Str s8)
          \<and> close s = twse_close s7
          \<and> pct s = (if fsub (close s) (twse_change s8) = Fin 0 then Fin 0
                      else fmul (fdiv (twse_change s8) (fsub (close s) (twse_change s8))) (Fin 100))"
    by blast
next
  assume "processTpexData B json = Inr out \<and> s \<in> set out"
  then have "processTpexData B json = Inr out" "s \<in> set out" by simp_all
  from tpex_pct [OF this] obtain rows row closeStr changeStr where
    h: "tpex_container B json = Inr (Arr rows)" "row \<in> set rows"
       "bindE (get_index row 2) (tpex_field B) = Inr closeStr"
       "bindE (get_index row 3) (tpex_field B) = Inr changeStr"
       "close s = parseFloat closeStr"
       "pct s = compute_pct (parseFloat closeStr) (parseFloat changeStr)"
    by blast
  from h(5,6) have "pct s = (if fsub (close s) (parseFloat changeStr) = Fin 0 then Fin 0
       else fmul (fdiv (parseFloat changeStr) (fsub (close s) (parseFloat changeStr))) (Fin 100))"
    by (simp add: compute_pct_unfold)
  with h(1-5) show "\<exists>rows row closeStr changeStr.
          tpex_container B json = Inr (Arr rows) \<and> row \<in> set rows
          \<and> bindE (get_index row 2) (tpex_field B) = Inr closeStr
          \<and> bindE (get_index row 3) (tpex_field B) = Inr changeStr
          \<and> close s = parseFloat closeStr
          \<and> pct s = (if fsub (close s) (parseFloat changeStr) = Fin 0 then Fin 0
                      else fmul (fdiv (parseFloat changeStr) (fsub (close s) (parseFloat changeStr)))
                             (Fin 100))"
    by blast
qed

theorem stored_pct_formula_witness:
  "processTwseData example_twse = Inr [tsmc] \<and> tsmc \<in> set [tsmc]
   \<and> (\<exists>rows row s7 s8.
          get_prop example_twse (ascii ''data'') = Inr (Arr rows) \<and> row \<in> set rows
          \<and> get_index row 7 = Inr (Str s7) \<and> get_index row 8 = Inr (Str s8)
          \<and> close tsmc = twse_close s7
          \<and> pct tsmc = (if fsub (close tsmc) (twse_change s8) = Fin 0 then Fin 0
                         else fmul (fdiv (twse_change s8) (fsub (close tsmc) (twse_change s8)))
                                (Fin 100)))
   \<and> processTpexData B0 example_tpex = Inr [smallco] \<and> smallco \<in> set [smallco]
   \<and> (\<exists>rows row closeStr changeStr.
          tpex_container B0 example_tpex = Inr (Arr rows) \<and> row \<in> set rows
          \<and> bindE (get_index row 2) (tpex_field B0) = Inr closeStr
          \<and> bindE (get_index row 3) (tpex_field B0) = Inr changeStr
          \<and> close smallco = parseFloat closeStr
          \<and> pct smallco = (if fsub (close smallco) (parseFloat changeStr) = Fin 0 then Fin 0
                      else fmul (fdiv (parseFloat changeStr) (fsub (close smallco) (parseFloat changeStr)))
                             (Fin 100)))"
proof -
  have h1: "processTwseData example_twse = Inr [tsmc] \<and> tsmc \<in> set [tsmc]"
    by (simp add: example_twse_eval)
  have h2: "processTpexData B0 example_tpex = Inr [smallco] \<and> smallco \<in> set [smallco]"
    by (simp add: example_tpex_eval)
  note t = stored_pct_formula
  from t [where json = example_twse and out = "[tsmc]" and s = tsmc] h1
  have c1: "\<exists>rows row s7 s8.
          get_prop example_twse (ascii ''data'') = Inr (Arr rows) \<and> row \<in> set rows
          \<and> get_index row 7 = Inr (Str s7) \<and> get_index row 8 = Inr (Str s8)
          \<and> close tsmc = twse_close s7
          \<and> pct tsmc = (if fsub (close tsmc) (twse_change s8) = Fin 0 then Fin 0
                         else fmul (fdiv (twse_change s8) (fsub (close tsmc) (twse_change s8)))
                                (Fin 100))"
    by blast
  from t [where json = example_tpex and B = B0 and out = "[smallco]" and s = smallco] h2
  have c2: "\<exists>rows row closeStr changeStr.
          tpex_container B0 example_tpex = Inr (Arr rows) \<and> row \<in> set rows
          \<and> bindE (get_index row 2) (tpex_field B0) = Inr closeStr
          \<and> bindE (get_index row 3) (tpex_field B0) = Inr changeStr
          \<and> close smallco = parseFloat closeStr
          \<and> pct smallco = (if fsub (close smallco) (parseFloat changeStr) = Fin 0 then Fin 0
                      else fmul (fdiv (parseFloat changeStr) (fsub (close smallco) (parseFloat changeStr)))
                             (Fin 100))"
    by blast
  from h1 h2 c1 c2 show ?thesis by blast
qed

subsection \<open>Rows that do not parse\<close>

lemma count_non_null_eq:
  assumes "list_all2 (\<lambda>x y. f x = Inr y) rows ys"
    and "\<And>row r. f row = Inr r \<Longrightarrow> (r \<noteq> None) = valid row"
  shows "length (filter_non_null ys) = length (filter valid rows)"
  using assms(1)
proof (induction rows ys rule: list_all2_induct)
  case Nil
  then show ?case by simp
next
  case (Cons x xs y ys)
  from assms(2) [OF Cons.hyps(1)] Cons.IH show ?case
    by (cases y) (simp_all add: filter_non_null_Cons)
qed

lemma count_non_null_le:
  assumes "list_all2 (\<lambda>x y. f x = Inr y) rows ys"
    and "\<And>row s. f row = Inr (Some s) \<Longrightarrow> valid row"
  shows "length (filter_non_null ys) \<le> length (filter valid rows)"
  using assms(1)
proof (induction rows ys rule: list_all2_induct)
  case Nil
  then show ?case by simp
next
  case (Cons x xs y ys)
  show ?case
  proof (cases y)
    case None
    with Cons.IH show ?thesis by (simp add: filter_non_null_Cons)
  next
    case (Some s)
    with Cons.hyps(1) have "valid x" by (auto intro: assms(2))
    with Some Cons.IH show ?thesis by (simp add: filter_non_null_Cons)
  qed
qed

lemma all_rows_answer:
  assumes "map_exn f rows = Inr ys" and "row \<in> set rows"
  shows "\<exists>r. f row = Inr r"
proof -
  from assms(2) obtain i where i: "i < length rows" "rows ! i = row"
    by (auto simp: in_set_conv_nth)
  from map_exn_Inr [OF assms(1)] i show ?thesis
    by (auto simp: list_all2_conv_all_nth)
qed

lemma twse_close_ok:
  assumes "processTwseData json = Inr out" and "s \<in> set out"
  shows "\<not> isNaN (close s) \<and> close s \<noteq> Fin 0"
proof -
  from twse_pct [OF assms] obtain rows row where
    "get_prop json (ascii ''data'') = Inr (Arr rows)" "row \<in> set rows" by blast
  from processTwseData_Inr [OF assms(1)] this(1) obtain ys where
    ys: "map_exn twse_row rows = Inr ys" "out = filter_non_null ys" by auto
  from mem_filter_non_null_map_exn [OF ys(1)] assms(2) ys(2)
  obtain row' where "twse_row row' = Inr (Some s)" by blast
  from twse_row_Some [OF this] show ?thesis by (auto simp: is_zero_def)
qed

lemma tpex_close_ok:
  assumes "processTpexData B json = Inr out" and "s \<in> set out"
  shows "\<not> isNaN (close s) \<and> close s \<noteq> Fin 0"
proof -
  from tpex_rows_of_output [OF assms] obtain row where "tpex_row B row = Inr (Some s)" by blast
  from tpex_row_Some [OF this] show ?thesis by (auto simp: is_zero_def)
qed

lemma twse_rows_excluded:
  assumes "processTwseData json = Inr out"
    and "get_prop json (ascii ''data'') = Inr (Arr rows)"
  shows "(\<forall>s\<in>set out. \<exists>row\<in>set rows. twse_row_valid row \<and> twse_row row = Inr (Some s))
       \<and> (\<forall>row\<in>set rows. \<not> twse_row_valid row \<longrightarrow> twse_row row = Inr None)
       \<and> length out = length (filter twse_row_valid rows)"
proof -
  from processTwseData_Inr [OF assms(1)] assms(2) obtain ys where
    ys: "map_exn twse_row rows = Inr ys" "out = filter_non_null ys" by auto
  have a: "\<forall>s\<in>set out. \<exists>row\<in>set rows. twse_row_valid row \<and> twse_row row = Inr (Some s)"
  proof
    fix s assume "s \<in> set out"
    with mem_filter_non_null_map_exn [OF ys(1)] ys(2)
    obtain row where "row \<in> set rows" "twse_row row = Inr (Some s)" by blast
    with twse_row_Some_valid show "\<exists>row\<in>set rows. twse_row_valid row \<and> twse_row row = Inr (Some s)"
      by blast
  qed
  have b: "\<forall>row\<in>set rows. \<not> twse_row_valid row \<longrightarrow> twse_row row = Inr None"
  proof (intro ballI impI)
    fix row assume "row \<in> set rows" "\<not> twse_row_valid row"
    from all_rows_answer [OF ys(1) this(1)] obtain r where r: "twse_row row = Inr r" ..
    from twse_row_None [OF r \<open>\<not> twse_row_valid row\<close>] r show "twse_row row = Inr None" by simp
  qed
  have "(r \<noteq> None) = twse_row_valid row" if "twse_row row = Inr r" for row r
    using that twse_row_None [of row r] twse_row_valid_not_None [of row r] by auto
  from count_non_null_eq [OF map_exn_Inr [OF ys(1)], of twse_row_valid, OF this] ys(2)
  have c: "length out = length (filter twse_row_valid rows)" by simp
  from a b c show ?thesis by blast
qed

lemma tpex_rows_excluded:
  assumes "processTpexData B json = Inr out"
    and "tpex_container B json = Inr (Arr rows)"
  shows "(\<forall>s\<in>set out. \<exists>row\<in>set rows. tpex_row_valid B row \<and> tpex_row B row = Inr (Some s))
       \<and> (\<forall>row\<in>set rows. \<not> tpex_row_valid B row \<longrightarrow> tpex_row B row = Inr None)
       \<and> length out \<le> length (filter (tpex_row_valid B) rows)"
proof (cases "rows = []")
  case True
  with assms show ?thesis by (simp add: processTpexData_Arr)
next
  case False
  with assms obtain ys where
    ys: "map_exn (tpex_row B) rows = Inr ys" "out = filter_non_null ys"
    by (auto simp: processTpexData_Arr bindE_Inr_iff)
  have a: "\<forall>s\<in>set out. \<exists>row\<in>set rows. tpex_row_valid B row \<and> tpex_row B row = Inr (Some s)"
  proof
    fix s assume "s \<in> set out"
    with mem_filter_non_null_map_exn [OF ys(1)] ys(2)
    obtain row where "row \<in> set rows" "tpex_row B row = Inr (Some s)" by blast
    with tpex_row_Some_valid
    show "\<exists>row\<in>set rows. tpex_row_valid B row \<and> tpex_row B row = Inr (Some s)"
      by blast
  qed
  have b: "\<forall>row\<in>set rows. \<not> tpex_row_valid B row \<longrightarrow> tpex_row B row = Inr None"
  proof (intro ballI impI)
    fix row assume "row \<in> set rows" "\<not> tpex_row_valid B row"
    from all_rows_answer [OF ys(1) this(1)] obtain r where r: "tpex_row B row = Inr r" ..
    from tpex_row_None [OF r \<open>\<not> tpex_row_valid B row\<close>] r
    show "tpex_row B row = Inr None" by simp
  qed
  from count_non_null_le [OF map_exn_Inr [OF ys(1)], of "tpex_row_valid B"]
    tpex_row_Some_valid ys(2)
  have c: "length out \<le> length (filter (tpex_row_valid B) rows)" by blast
  from a b c show ?thesis by blast
qed

text \<open>
  C2. Every record a normalizer returns has a \<open>close\<close> that is a number other than zero,
  and comes from a row whose close text and change text both parsed to numbers. A row
  whose close or change does not parse, or whose close is zero, makes the callback return
  \<open>null\<close> and leaves no record: exchange 1 returns exactly one record for each valid row,
  exchange 2 (which also drops long codes) at most one.
\<close>

theorem unparsed_rows_excluded:
  "(processTwseData json = Inr out \<longrightarrow> (\<forall>s\<in>set out. \<not> isNaN (close s) \<and> close s \<noteq> Fin 0))
   \<and> (processTwseData json = Inr out \<and> get_prop json (ascii ''data'') = Inr (Arr rows) \<longrightarrow>
        (\<forall>s\<in>set out. \<exists>row\<in>set rows. twse_row_valid row \<and> twse_row row = Inr (Some s))
        \<and> (\<forall>row\<in>set rows. \<not> twse_row_valid row \<longrightarrow> twse_row row = Inr None)
        \<and> length out = length (filter twse_row_valid rows))
   \<and> (processTpexData B json = Inr out \<longrightarrow> (\<forall>s\<in>set out. \<not> isNaN (close s) \<and> close s \<noteq> Fin 0))
   \<and> (processTpexData B json = Inr out \<and> tpex_container B json = Inr (Arr rows) \<longrightarrow>
        (\<forall>s\<in>set out. \<exists>row\<in>set rows. tpex_row_valid B row \<and> tpex_row B row = Inr (Some s))
        \<and> (\<forall>row\<in>set rows. \<not> tpex_row_valid B row \<longrightarrow> tpex_row B row = Inr None)
        \<and> length out \<le> length (filter (tpex_row_valid B) rows))"
proof -
  have a: "processTwseData json = Inr out \<longrightarrow> (\<forall>s\<in>set out. \<not> isNaN (close s) \<and> close s \<noteq> Fin 0)"
    using twse_close_ok by blast
  have b: "processTwseData json = Inr out \<and> get_prop json (ascii ''data'') = Inr (Arr rows) \<longrightarrow>
        (\<forall>s\<in>set out. \<exists>row\<in>set rows. twse_row_valid row \<and> twse_row row = Inr (Some s))
        \<and> (\<forall>row\<in>set rows. \<not> twse_row_valid row \<longrightarrow> twse_row row = Inr None)
        \<and> length out = length (filter twse_row_valid rows)"
    using twse_rows_excluded by blast
  have c: "processTpexData B json = Inr out \<longrightarrow> (\<forall>s\<in>set out. \<not> isNaN (close s) \<and> close s \<noteq> Fin 0)"
    using tpex_close_ok by blast
  have d: "processTpexData B json = Inr out \<and> tpex_container B json = Inr (Arr rows) \<longrightarrow>
        (\<forall>s\<in>set out. \<exists>row\<in>set rows. tpex_row_valid B row \<and> tpex_row B row = Inr (Some s))
        \<and> (\<forall>row\<in>set rows. \<not> tpex_row_valid B row \<longrightarrow> tpex_row B row = Inr None)
        \<and> length out \<le> length (filter (tpex_row_valid B) rows)"
    using tpex_rows_excluded by blast
  from a b c d show ?thesis by blast
qed

lemma twse_mixed_eval: "processTwseData twse_mixed = Inr [tsmc]"
  by code_simp

lemma tpex_mixed_eval: "processTpexData B0 tpex_mixed = Inr [smallco]"
  by code_simp

lemma twse_mixed_invalid: "\<not> twse_row_valid twse_no_quote_row \<and> \<not> twse_row_valid twse_zero_row"
  by code_simp

lemma tpex_mixed_invalid: "\<not> tpex_row_valid B0 tpex_no_quote_row"
  by code_simp

theorem unparsed_rows_excluded_witness:
  "processTwseData twse_mixed = Inr [tsmc]
   \<and> get_prop twse_mixed (ascii ''data'') =
       Inr (Arr [twse_no_quote_row, example_twse_row, twse_zero_row])
   \<and> \<not> isNaN (close tsmc) \<and> close tsmc \<noteq> Fin 0
   \<and> \<not> twse_row_valid twse_no_quote_row \<and> twse_row twse_no_quote_row = Inr None
   \<and> \<not> twse_row_valid twse_zero_row \<and> twse_row twse_zero_row = Inr None
   \<and> processTpexData B0 tpex_mixed = Inr [smallco]
   \<and> tpex_container B0 tpex_mixed = Inr (Arr [example_tpex_row, tpex_no_quote_row])
   \<and> \<not> isNaN (close smallco) \<and> close smallco \<noteq> Fin 0
   \<and> \<not> tpex_row_valid B0 tpex_no_quote_row \<and> tpex_row B0 tpex_no_quote_row = Inr None"
proof -
  have g1: "get_prop twse_mixed (ascii ''data'') =
       Inr (Arr [twse_no_quote_row, example_twse_row, twse_zero_row])"
    by (simp add: twse_mixed_def)
  have g2: "tpex_container B0 tpex_mixed = Inr (Arr [example_tpex_row, tpex_no_quote_row])"
    by code_simp
  note t = unparsed_rows_excluded
    [where json = twse_mixed and out = "[tsmc]"
       and rows = "[twse_no_quote_row, example_twse_row, twse_zero_row]"]
  note u = unparsed_rows_excluded
    [where json = tpex_mixed and B = B0 and out = "[smallco]"
       and rows = "[example_tpex_row, tpex_no_quote_row]"]
  from t twse_mixed_eval g1 twse_mixed_invalid
  have c1: "\<not> isNaN (close tsmc) \<and> close tsmc \<noteq> Fin 0
       \<and> twse_row twse_no_quote_row = Inr None \<and> twse_row twse_zero_row = Inr None"
    by simp
  from u tpex_mixed_eval g2 tpex_mixed_invalid
  have c2: "\<not> isNaN (close smallco) \<and> close smallco \<noteq> Fin 0
       \<and> tpex_row B0 tpex_no_quote_row = Inr None"
    by simp
  from c1 c2 g1 g2 twse_mixed_eval tpex_mixed_eval twse_mixed_invalid tpex_mixed_invalid
  show ?thesis by simp
qed

subsection \<open>Do the normalizers ever throw?\<close>

text \<open>
  An exchange-2 row whose code is the number 5678, not a string: \<open>code.length\<close> is
  \<open>undefined\<close>, the comparison with 6 is false, and the row gives a record.
\<close>

lemma tpex_numeric_code_eval:
  "processTpexData B0 tpex_numeric_code =
     Inr [\<lparr>code = Num (Fin 5678), name = S ''SmallCo'',
           pct = Fin (- (8660768514174031 / 2251799813685248)), close = Fin 50,
           amount = ascii ''0''\<rparr>]"
  by code_simp

text \<open>
  C3, as stated, fails. An exchange-1 row that stops before position 3 makes the callback
  call \<open>replace\<close> on \<open>undefined\<close>; an exchange-2 row without a code makes it read
  \<open>length\<close> of \<open>undefined\<close>; a payload that is \<open>null\<close> has no property to read. Each
  throws a \<open>TypeError\<close>, which the endpoint turns into its 500 answer.
\<close>

theorem normalizer_throws_counterexample:
  "processTwseData twse_short_row = Inl (TypeError ''Cannot read properties of undefined'')
   \<and> processTpexData B0 tpex_empty_row = Inl (TypeError ''Cannot read properties of undefined'')
   \<and> processTwseData Null = Inl (TypeError ''Cannot read properties of null'')
   \<and> fst (market_data B0 True (Inr (Inr twse_short_row)) (Inr (Inr example_tpex)) []) =
       Response 500 (ErrorBody (ascii ''Failed to fetch market data''))"
proof -
  have a: "processTwseData twse_short_row = Inl (TypeError ''Cannot read properties of undefined'')"
    by code_simp
  have b: "processTpexData B0 tpex_empty_row = Inl (TypeError ''Cannot read properties of undefined'')"
    by code_simp
  have c: "processTwseData Null = Inl (TypeError ''Cannot read properties of null'')"
    by (simp add: processTwseData_def)
  from a have "try_block B0 True (Inr (Inr twse_short_row)) (Inr (Inr example_tpex)) [] =
      Inl (TypeError ''Cannot read properties of undefined'')"
    by (simp add: try_block_def)
  then have d: "fst (market_data B0 True (Inr (Inr twse_short_row)) (Inr (Inr example_tpex)) []) =
       Response 500 (ErrorBody (ascii ''Failed to fetch market data''))"
    by (simp add: market_data_def)
  from a b c d show ?thesis by simp
qed

text \<open>
  C3, amended. The exchange-1 normalizer returns a sequence, and does not throw, exactly
  when the payload is neither \<open>null\<close> nor \<open>undefined\<close> and its \<open>data\<close> is missing or
  falsy, or is an array whose every row holds a string at the positions 3, 7 and 8. The
  exchange-2 normalizer returns a sequence, and does not throw, whenever the payload is
  neither \<open>null\<close> nor \<open>undefined\<close> and the container it selects (\<open>data\<close> of the first
  element of \<open>tables\<close>, that element being neither \<open>null\<close> nor \<open>undefined\<close>, when
  \<open>tables\<close> is a non-empty array; \<open>data\<close>, or else \<open>aaData\<close>, when \<open>tables\<close> is
  missing, falsy or an empty array) is missing or falsy, or is an array whose every row
  has a code other than \<open>undefined\<close> and \<open>null\<close> (a string or a number, for instance;
  an object only if its own \<open>length\<close>, if any, is a primitive value) and missing or
  primitive values at the positions 2, 3 and 8. On these payloads no more records come
  out than there are valid rows (for exchange 1, exactly as many): rows that are not valid
  are skipped. A payload other than \<open>null\<close> and \<open>undefined\<close> with no truthy container
  (for exchange 2: none of \<open>tables\<close>, \<open>data\<close> and \<open>aaData\<close>) gives the empty
  sequence. An exchange-2 container holding a row whose code is \<open>undefined\<close> (missing)
  or \<open>null\<close> makes the normalizer throw.
\<close>

theorem normalizers_total_on_well_shaped_payloads:
  "((\<exists>out. processTwseData json = Inr out) \<longleftrightarrow> twse_payload_ok json)
   \<and> (tpex_payload_ok json \<longrightarrow> (\<exists>out. processTpexData B json = Inr out))
   \<and> (twse_payload_ok json \<and> get_prop json (ascii ''data'') = Inr (Arr rows) \<longrightarrow>
        (\<exists>out. processTwseData json = Inr out
           \<and> length out = length (filter twse_row_valid rows)))
   \<and> (tpex_payload_ok json \<and> tpex_container B json = Inr (Arr rows) \<longrightarrow>
        (\<exists>out. processTpexData B json = Inr out
           \<and> length out \<le> length (filter (tpex_row_valid B) rows)))
   \<and> (get_prop json (ascii ''data'') = Inr d \<and> \<not> truthy d \<longrightarrow> processTwseData json = Inr [])
   \<and> (get_prop json (ascii ''tables'') = Inr t \<and> \<not> truthy t
        \<and> get_prop json (ascii ''data'') = Inr d \<and> \<not> truthy d
        \<and> get_prop json (ascii ''aaData'') = Inr a \<and> \<not> truthy a
       \<longrightarrow> processTpexData B json = Inr [])
   \<and> (tpex_container B json = Inr (Arr rows) \<and> row \<in> set rows
        \<and> (get_index row 0 = Inr Undefined \<or> get_index row 0 = Inr Null)
       \<longrightarrow> (\<exists>e. processTpexData B json = Inl e))"
proof (intro conjI impI)
  show "(\<exists>out. processTwseData json = Inr out) \<longleftrightarrow> twse_payload_ok json"
    by (rule processTwseData_total_iff)
next
  assume "tpex_payload_ok json"
  then show "\<exists>out. processTpexData B json = Inr out" by (rule processTpexData_total)
next
  assume h: "twse_payload_ok json \<and> get_prop json (ascii ''data'') = Inr (Arr rows)"
  then obtain out where out: "processTwseData json = Inr out"
    using processTwseData_total_iff by blast
  from twse_rows_excluded [OF out] h
  have "length out = length (filter twse_row_valid rows)" by blast
  with out show "\<exists>out. processTwseData json = Inr out
           \<and> length out = length (filter twse_row_valid rows)" by blast
next
  assume h: "tpex_payload_ok json \<and> tpex_container B json = Inr (Arr rows)"
  then obtain out where out: "processTpexData B json = Inr out"
    using processTpexData_total by blast
  from tpex_rows_excluded [OF out] h
  have "length out \<le> length (filter (tpex_row_valid B) rows)" by blast
  with out show "\<exists>out. processTpexData B json = Inr out
           \<and> length out \<le> length (filter (tpex_row_valid B) rows)" by blast
next
  assume "get_prop json (ascii ''data'') = Inr d \<and> \<not> truthy d"
  then show "processTwseData json = Inr []" by (simp add: processTwseData_def)
next
  assume h: "get_prop json (ascii ''tables'') = Inr t \<and> \<not> truthy t
        \<and> get_prop json (ascii ''data'') = Inr d \<and> \<not> truthy d
        \<and> get_prop json (ascii ''aaData'') = Inr a \<and> \<not> truthy a"
  show "processTpexData B json = Inr []"
    by (rule tpex_no_rows [of json t d a]) (use h in simp_all)
next
  assume h: "tpex_container B json = Inr (Arr rows) \<and> row \<in> set rows
        \<and> (get_index row 0 = Inr Undefined \<or> get_index row 0 = Inr Null)"
  then obtain c where "get_index row 0 = Inr c" "c = Undefined \<or> c = Null" by blast
  with h show "\<exists>e. processTpexData B json = Inl e"
    by (blast intro: tpex_no_code_throws)
qed

theorem normalizers_total_on_well_shaped_payloads_witness:
  "twse_payload_ok twse_mixed
   \<and> get_prop twse_mixed (ascii ''data'') =
       Inr (Arr [twse_no_quote_row, example_twse_row, twse_zero_row])
   \<and> (\<exists>out. processTwseData twse_mixed = Inr out
         \<and> length out = length (filter twse_row_valid
                               [twse_no_quote_row, example_twse_row, twse_zero_row]))
   \<and> twse_payload_ok example_twse \<and> (\<exists>out. processTwseData example_twse = Inr out)
   \<and> tpex_payload_ok example_tpex \<and> (\<exists>out. processTpexData B0 example_tpex = Inr out)
   \<and> tpex_payload_ok tpex_numeric_code
   \<and> (\<exists>out. processTpexData B0 tpex_numeric_code = Inr out)
   \<and> tpex_payload_ok tpex_tables_empty_object
   \<and> (\<exists>out. processTpexData B0 tpex_tables_empty_object = Inr out)
   \<and> get_prop (Obj []) (ascii ''data'') = Inr Undefined \<and> processTwseData (Obj []) = Inr []
   \<and> get_prop (Obj []) (ascii ''tables'') = Inr Undefined
   \<and> get_prop (Obj []) (ascii ''aaData'') = Inr Undefined
   \<and> processTpexData B0 (Obj []) = Inr []
   \<and> tpex_container B0 tpex_null_code = Inr (Arr [example_tpex_row, Arr [Null, S ''NoCode'']])
   \<and> get_index (Arr [Null, S ''NoCode'']) 0 = Inr Null
   \<and> (\<exists>e. processTpexData B0 tpex_null_code = Inl e)"
proof -
  have h0: "twse_payload_ok twse_mixed
       \<and> get_prop twse_mixed (ascii ''data'') =
           Inr (Arr [twse_no_quote_row, example_twse_row, twse_zero_row])"
    by code_simp
  have h1: "twse_payload_ok example_twse" by code_simp
  have h2: "tpex_payload_ok example_tpex" by code_simp
  have h3: "get_prop (Obj []) (ascii ''data'') = Inr Undefined \<and> \<not> truthy Undefined" by simp
  have h4: "get_prop (Obj []) (ascii ''tables'') = Inr Undefined \<and> \<not> truthy Undefined
        \<and> get_prop (Obj []) (ascii ''data'') = Inr Undefined \<and> \<not> truthy Undefined
        \<and> get_prop (Obj []) (ascii ''aaData'') = Inr Undefined \<and> \<not> truthy Undefined" by simp
  have h5: "tpex_payload_ok tpex_numeric_code" by code_simp
  have h6: "tpex_payload_ok tpex_tables_empty_object" by code_simp
  have h7: "tpex_container B0 tpex_null_code =
      Inr (Arr [example_tpex_row, Arr [Null, S ''NoCode'']])"
    by code_simp
  have h8: "Arr [Null, S ''NoCode''] \<in> set [example_tpex_row, Arr [Null, S ''NoCode'']]
      \<and> get_index (Arr [Null, S ''NoCode'']) 0 = Inr Null"
    by simp
  note t = normalizers_total_on_well_shaped_payloads
  from t [where json = twse_mixed
        and rows = "[twse_no_quote_row, example_twse_row, twse_zero_row]"] h0
  have c0: "\<exists>out. processTwseData twse_mixed = Inr out
         \<and> length out = length (filter twse_row_valid
                               [twse_no_quote_row, example_twse_row, twse_zero_row])"
    by blast
  from t [where json = example_twse] h1
  have c1: "\<exists>out. processTwseData example_twse = Inr out" by blast
  from t [where json = example_tpex and B = B0] h2
  have c2: "\<exists>out. processTpexData B0 example_tpex = Inr out" by blast
  from t [where json = "Obj []" and d = Undefined] h3
  have c3: "processTwseData (Obj []) = Inr []" by blast
  from t [where json = "Obj []" and B = B0 and d = Undefined and t = Undefined and a = Undefined] h4
  have c4: "processTpexData B0 (Obj []) = Inr []" by blast
  from t [where json = tpex_numeric_code and B = B0] h5
  have c5: "\<exists>out. processTpexData B0 tpex_numeric_code = Inr out" by blast
  from t [where json = tpex_tables_empty_object and B = B0] h6
  have c6: "\<exists>out. processTpexData B0 tpex_tables_empty_object = Inr out" by blast
  from t [where json = tpex_null_code and B = B0
        and rows = "[example_tpex_row, Arr [Null, S ''NoCode'']]"
        and row = "Arr [Null, S ''NoCode'']"] h7 h8
  have c7: "\<exists>e. processTpexData B0 tpex_null_code = Inl e" by blast
  from h0 h1 h2 h3 h4 h5 h6 h7 h8 c0 c1 c2 c3 c4 c5 c6 c7 show ?thesis by simp
qed

subsection \<open>The code-to-percentage map\<close>

lemma build_stock_map_append:
  "build_stock_map B (xs @ ys) m = bindE (build_stock_map B xs m) (\<lambda>m'. build_stock_map B ys m')"
proof (induction xs arbitrary: m)
  case Nil
  then show ?case by simp
next
  case (Cons x xs)
  then show ?case by (cases "to_property_key B (code x)") simp_all
qed

lemma build_stock_map_other:
  assumes "build_stock_map B xs m = Inr m'"
    and "\<forall>s\<in>set xs. to_property_key B (code s) \<noteq> Inr k"
  shows "m' k = m k"
  using assms
proof (induction xs arbitrary: m)
  case Nil
  then show ?case by simp
next
  case (Cons x xs)
  from Cons.prems(1) obtain k' where
    k': "to_property_key B (code x) = Inr k'"
    and rest: "build_stock_map B xs (js_set m k' (format_pct B (pct x))) = Inr m'"
    by (auto simp: bindE_Inr_iff)
  from Cons.prems(2) k' have "k' \<noteq> k" by auto
  from Cons.IH [OF rest] Cons.prems(2) have "m' k = js_set m k' (format_pct B (pct x)) k" by simp
  with \<open>k' \<noteq> k\<close> show ?case by (simp add: js_set_def)
qed

lemma build_stock_map_last:
  assumes "build_stock_map B (pre @ s # post) m = Inr m'"
    and "to_property_key B (code s) = Inr k" and "k \<noteq> ascii ''__proto__''"
    and "\<forall>t\<in>set post. to_property_key B (code t) \<noteq> Inr k"
  shows "m' k = Some (format_pct B (pct s))"
proof -
  from assms(1) obtain m1 where
    m1: "build_stock_map B pre m = Inr m1" and r: "build_stock_map B (s # post) m1 = Inr m'"
    by (auto simp: build_stock_map_append bindE_Inr_iff)
  from r assms(2) have "build_stock_map B post (js_set m1 k (format_pct B (pct s))) = Inr m'"
    by simp
  from build_stock_map_other [OF this assms(4)] assms(3) show ?thesis
    by (simp add: js_set_def)
qed

lemma build_stock_map_proto:
  assumes "build_stock_map B xs m = Inr m'"
  shows "m' (ascii ''__proto__'') = m (ascii ''__proto__'')"
  using assms
proof (induction xs arbitrary: m)
  case Nil
  then show ?case by simp
next
  case (Cons x xs)
  from Cons.prems obtain k' where
    "build_stock_map B xs (js_set m k' (format_pct B (pct x))) = Inr m'"
    by (auto simp: bindE_Inr_iff)
  from Cons.IH [OF this] show ?case by (simp add: js_set_def)
qed

text \<open>
  C10, as stated, fails for one code. Assigning a string to the property \<open>__proto__\<close> of
  an object literal runs the setter inherited from \<open>Object.prototype\<close>, which ignores it:
  two records that share the code \<open>__proto__\<close> leave no entry at all, where the claim
  promises the second record's \<open>+2.00%\<close>.
\<close>

theorem stock_map_proto_counterexample:
  "stock_map_entry B0 ([listed ''__proto__'' 1] @ [listed ''__proto__'' 2]) (ascii ''__proto__'') =
     Inr None
   \<and> format_pct B0 (pct (listed ''__proto__'' 2)) = ascii ''+2.00%''"
  by code_simp

text \<open>
  C10, amended. Let the map be built from the exchange-1 records followed by the
  exchange-2 records, and let \<open>k\<close>, other than \<open>__proto__\<close>, be the property key of a
  record's code. If the record is the last of exchange 2 with that key, the map holds its
  formatted percentage under \<open>k\<close>, whatever exchange 1 holds. If it is the last of
  exchange 1 with that key and no exchange-2 record has the key, the map holds its
  formatted percentage under \<open>k\<close>.
\<close>

theorem later_record_wins:
  assumes "build_stock_map B (twseStocks @ tpexStocks) Map.empty = Inr m"
    and "to_property_key B (code s) = Inr k" and "k \<noteq> ascii ''__proto__''"
  shows "(tpexStocks = pre @ s # post
            \<and> (\<forall>t\<in>set post. to_property_key B (code t) \<noteq> Inr k)
          \<longrightarrow> m k = Some (format_pct B (pct s)))
       \<and> (twseStocks = pre @ s # post
            \<and> (\<forall>t\<in>set post. to_property_key B (code t) \<noteq> Inr k)
            \<and> (\<forall>t\<in>set tpexStocks. to_property_key B (code t) \<noteq> Inr k)
          \<longrightarrow> m k = Some (format_pct B (pct s)))"
proof (intro conjI impI)
  assume h: "tpexStocks = pre @ s # post
            \<and> (\<forall>t\<in>set post. to_property_key B (code t) \<noteq> Inr k)"
  with assms(1) have "build_stock_map B ((twseStocks @ pre) @ s # post) Map.empty = Inr m"
    by simp
  from build_stock_map_last [OF this assms(2,3)] h
  show "m k = Some (format_pct B (pct s))" by blast
next
  assume h: "twseStocks = pre @ s # post
            \<and> (\<forall>t\<in>set post. to_property_key B (code t) \<noteq> Inr k)
            \<and> (\<forall>t\<in>set tpexStocks. to_property_key B (code t) \<noteq> Inr k)"
  with assms(1) have a: "build_stock_map B (pre @ s # (post @ tpexStocks)) Map.empty = Inr m"
    by simp
  from h have b: "\<forall>t\<in>set (post @ tpexStocks). to_property_key B (code t) \<noteq> Inr k"
    by auto
  from build_stock_map_last [OF a assms(2,3) b]
  show "m k = Some (format_pct B (pct s))" .
qed

lemma format_pct_examples:
  "format_pct B0 (Fin 1) = ascii ''+1.00%''"
  "format_pct B0 (Fin 2) = ascii ''+2.00%''"
  "format_pct B0 (Fin (- 3)) = ascii ''-3.00%''"
  by code_simp+

lemma listed_collision_eval:
  "build_stock_map B0 ([listed ''6488'' 1] @ [listed ''6488'' 2, listed ''5678'' (- 3)]) Map.empty =
     Inr [ascii ''6488'' \<mapsto> ascii ''+2.00%'', ascii ''5678'' \<mapsto> ascii ''-3.00%'']"
  by (simp add: listed_def S_def js_set_def format_pct_examples) (simp add: ascii_def)

theorem later_record_wins_witness:
  "build_stock_map B0 ([listed ''6488'' 1] @ [listed ''6488'' 2, listed ''5678'' (- 3)]) Map.empty =
     Inr [ascii ''6488'' \<mapsto> ascii ''+2.00%'', ascii ''5678'' \<mapsto> ascii ''-3.00%'']
   \<and> to_property_key B0 (code (listed ''6488'' 2)) = Inr (ascii ''6488'')
   \<and> ascii ''6488'' \<noteq> ascii ''__proto__''
   \<and> [listed ''6488'' 2, listed ''5678'' (- 3)] = [] @ listed ''6488'' 2 # [listed ''5678'' (- 3)]
   \<and> to_property_key B0 (code (listed ''5678'' (- 3))) \<noteq> Inr (ascii ''6488'')
   \<and> [ascii ''6488'' \<mapsto> ascii ''+2.00%'', ascii ''5678'' \<mapsto> ascii ''-3.00%''] (ascii ''6488'') =
       Some (format_pct B0 (pct (listed ''6488'' 2)))"
proof -
  have h2: "to_property_key B0 (code (listed ''6488'' 2)) = Inr (ascii ''6488'')"
    by (simp add: listed_def S_def)
  have h3: "ascii ''6488'' \<noteq> ascii ''__proto__''" by (simp add: ascii_def)
  have h4: "[listed ''6488'' 2, listed ''5678'' (- 3)] = [] @ listed ''6488'' 2 # [listed ''5678'' (- 3)]
     \<and> (\<forall>t\<in>set [listed ''5678'' (- 3)]. to_property_key B0 (code t) \<noteq> Inr (ascii ''6488''))"
    by (simp add: listed_def S_def ascii_def)
  from later_record_wins [OF listed_collision_eval h2 h3,
      where pre = "[]" and post = "[listed ''5678'' (- 3)]"] h4
  have c: "[ascii ''6488'' \<mapsto> ascii ''+2.00%'', ascii ''5678'' \<mapsto> ascii ''-3.00%''] (ascii ''6488'') =
       Some (format_pct B0 (pct (listed ''6488'' 2)))"
    by blast
  from h4 have h5: "to_property_key B0 (code (listed ''5678'' (- 3))) \<noteq> Inr (ascii ''6488'')"
    by simp
  from listed_collision_eval h2 h3 h4 h5 c show ?thesis by blast
qed

subsection \<open>Helper lemmas: the sign of a rounded difference\<close>

lemma ilog2_le:
  assumes "0 < a"
  shows "2 powi (ilog2 a) \<le> a"
proof -
  obtain p q where pq: "quotient_of a = (p, q)" by force
  then have q: "0 < q" by (rule quotient_of_denom_pos)
  from pq have a: "a = of_int p / of_int q" by (rule quotient_of_div)
  with assms q have p: "0 < p" by (simp add: zero_less_divide_iff)
  define d where "d = bitlen p - bitlen q"
  show ?thesis
  proof (cases "a < 2 powi d")
    case False
    with pq show ?thesis by (simp add: ilog2_def d_def)
  next
    case True
    from bitlen_bounds [OF p] have lo: "2 ^ nat (bitlen p - 1) \<le> p" by simp
    from bitlen_bounds [OF q] have hi: "q \<le> 2 ^ nat (bitlen q)" by simp
    from p have bp: "1 \<le> bitlen p" by (auto simp: bitlen_alt_def)
    have bq: "0 \<le> bitlen q" by (rule bitlen_nonneg)
    have n: "(2::rat) powi (bitlen p - 1) \<le> of_int p"
    proof -
      have "(2::rat) powi (bitlen p - 1) = 2 ^ nat (bitlen p - 1)"
        using bp by (simp add: power_int_def)
      also have "\<dots> = of_int (2 ^ nat (bitlen p - 1))" by simp
      also have "\<dots> \<le> of_int p" using lo by (simp only: of_int_le_iff)
      finally show ?thesis .
    qed
    have m: "of_int q \<le> (2::rat) powi (bitlen q)"
    proof -
      have "(of_int q :: rat) \<le> of_int (2 ^ nat (bitlen q))" using hi by (simp only: of_int_le_iff)
      also have "\<dots> = 2 powi (bitlen q)" using bq by (simp add: power_int_def)
      finally show ?thesis .
    qed
    have "(2::rat) powi (d - 1) = 2 powi (bitlen p - 1) / 2 powi (bitlen q)"
      by (simp add: d_def power_int_diff)
    also have "\<dots> \<le> of_int p / of_int q"
      by (rule frac_le) (use n m p q in simp_all)
    finally have "2 powi (d - 1) \<le> a" by (simp add: a)
    with True pq show ?thesis by (simp add: ilog2_def d_def)
  qed
qed

lemma round_half_even_ge:
  assumes "of_int n \<le> q"
  shows "n \<le> round_half_even q"
proof -
  from assms have "n \<le> \<lfloor>q\<rfloor>" by (simp add: le_floor_iff)
  then show ?thesis by (simp add: round_half_even_def Let_def)
qed

lemma round_double_nonzero:
  assumes "v \<noteq> 0"
  shows "round_double v =
     (if 1024 \<le> ilog2 \<bar>v\<bar>
         \<or> (ilog2 \<bar>v\<bar> = 1023
            \<and> round_half_even (\<bar>v\<bar> / 2 powi (max (ilog2 \<bar>v\<bar>) (- 1022) - 52)) = 2 ^ 53)
      then Inf (0 < v)
      else Fin ((if v < 0 then - 1 else 1)
                * of_int (round_half_even (\<bar>v\<bar> / 2 powi (max (ilog2 \<bar>v\<bar>) (- 1022) - 52)))
                * 2 powi (max (ilog2 \<bar>v\<bar>) (- 1022) - 52)))"
  unfolding round_double_def Let_def using assms by (simp only: if_False)

text \<open>
  A double is a multiple of \<open>2^-1074\<close>; so is the difference of two doubles, which
  therefore does not round to zero unless it is zero. (The exponent 1074 is passed as \<open>n\<close>.)
\<close>

lemma round_double_sign:
  assumes "v \<noteq> 0" and "n = 1074" and "v * 2 ^ n \<in> \<int>"
  shows "round_double v = Inf (0 < v) \<or> (\<exists>w. round_double v = Fin w \<and> w \<noteq> 0 \<and> (0 < w) = (0 < v))"
proof -
  define a where "a = \<bar>v\<bar>"
  define e where "e = ilog2 a"
  define k where "k = max e (- 1022) - 52"
  define m where "m = round_half_even (a / 2 powi k)"
  from assms(1) have apos: "0 < a" by (simp add: a_def)
  have "1 \<le> a / 2 powi k"
  proof (cases "- 1022 \<le> e")
    case True
    then have k: "e = k + 52" by (simp add: k_def)
    have "(1::rat) \<le> 2 powi 52" by simp
    also have "\<dots> = 2 powi e / 2 powi k" by (simp add: k power_int_add)
    also have "\<dots> \<le> a / 2 powi k"
      by (rule divide_right_mono) (use ilog2_le [OF apos] in \<open>simp_all add: e_def\<close>)
    finally show ?thesis .
  next
    case False
    then have k: "k = - int n" by (simp add: k_def assms(2))
    from assms(3) have "\<bar>v * 2 ^ n\<bar> \<in> \<int>" by simp
    then obtain j :: int where j: "\<bar>v * 2 ^ n\<bar> = of_int j" by (auto elim: Ints_cases)
    from assms(1) have "0 < \<bar>v * 2 ^ n\<bar>" by simp
    with j have "0 < j" by simp
    then have "(1::rat) \<le> of_int j" by simp
    also have "\<dots> = a * 2 ^ n" using j by (simp add: a_def abs_mult)
    also have "\<dots> = a / 2 powi k" by (simp add: k power_int_minus divide_inverse)
    finally show ?thesis .
  qed
  then have "of_int 1 \<le> a / 2 powi k" by simp
  from round_half_even_ge [OF this] have m1: "1 \<le> m" by (simp add: m_def)
  from m1 have mpos: "(0::rat) < of_int m * 2 powi k" by (simp add: zero_less_mult_iff)
  have "round_double v =
      (if 1024 \<le> e \<or> (e = 1023 \<and> m = 2 ^ 53) then Inf (0 < v)
       else Fin ((if v < 0 then - 1 else 1) * of_int m * 2 powi k))"
    unfolding m_def k_def e_def a_def using assms(1) by (rule round_double_nonzero)
  moreover have "(if v < 0 then - 1 else 1) * of_int m * 2 powi k \<noteq> (0::rat)"
    using mpos by (auto simp: mult.assoc)
  moreover have "((0::rat) < (if v < 0 then - 1 else 1) * of_int m * 2 powi k) = (0 < v)"
    using mpos assms(1) by (auto simp: mult.assoc)
  ultimately show ?thesis by (cases "1024 \<le> e \<or> (e = 1023 \<and> m = 2 ^ 53)") (simp_all only: if_True if_False, blast+)
qed

lemma fixpoint_on_grid:
  assumes "round_double v = Fin v" and "n = 1074"
  shows "v * 2 ^ n \<in> \<int>"
proof (cases "v = 0")
  case True
  then show ?thesis by simp
next
  case False
  define a where "a = \<bar>v\<bar>"
  define e where "e = ilog2 a"
  define k where "k = max e (- 1022) - 52"
  define m where "m = round_half_even (a / 2 powi k)"
  have "round_double v =
      (if 1024 \<le> e \<or> (e = 1023 \<and> m = 2 ^ 53) then Inf (0 < v)
       else Fin ((if v < 0 then - 1 else 1) * of_int m * 2 powi k))"
    unfolding m_def k_def e_def a_def using False by (rule round_double_nonzero)
  with assms(1) have v: "v = (if v < 0 then - 1 else 1) * of_int m * 2 powi k"
    by (cases "1024 \<le> e \<or> (e = 1023 \<and> m = 2 ^ 53)") (simp_all only: if_True if_False jsnum.inject jsnum.distinct)
  have k0: "0 \<le> k + int n" by (simp add: k_def assms(2))
  have "(2::rat) powi k * 2 ^ n = 2 powi k * 2 powi (int n)" by simp
  also have "\<dots> = 2 powi (k + int n)" by (simp add: power_int_add)
  also have "\<dots> = 2 ^ nat (k + int n)" using k0 by (simp add: power_int_def)
  finally have "(2::rat) powi k * 2 ^ n \<in> \<int>" by simp
  with Ints_of_int have "of_int m * (2 powi k * 2 ^ n) \<in> (\<int> :: rat set)" by (rule Ints_mult)
  moreover have "(if v < 0 then - 1 else 1) \<in> (\<int> :: rat set)" by simp
  ultimately have "(if v < 0 then - 1 else 1) * (of_int m * (2 powi k * 2 ^ n)) \<in> (\<int> :: rat set)"
    by (rule Ints_mult [rotated])
  moreover have "v * 2 ^ n = (if v < 0 then - 1 else 1) * (of_int m * (2 powi k * 2 ^ n))"
    by (subst v) (simp only: mult.assoc)
  ultimately show ?thesis by (simp only:)
qed

lemma gt_zero_fsub:
  assumes "is_double x" "is_double y" "\<not> isNaN x" "\<not> isNaN y"
  shows "num_gt (fsub y x) (Fin 0) = num_gt y x"
proof (cases x)
  case NaN
  with assms show ?thesis by simp
next
  case (Inf s)
  with assms show ?thesis by (cases y) auto
next
  case xf: (Fin a)
  show ?thesis
  proof (cases y)
    case NaN
    with assms show ?thesis by simp
  next
    case (Inf t)
    with xf show ?thesis by simp
  next
    case (Fin b)
    show ?thesis
    proof (cases "b = a")
      case True
      with xf Fin show ?thesis by (simp add: round_double_def)
    next
      case False
      define n :: nat where "n = 1074"
      from assms xf Fin have "a * 2 ^ n \<in> \<int>" "b * 2 ^ n \<in> \<int>"
        by (auto intro: fixpoint_on_grid simp: n_def simp del: power_numeral)
      then have "b * 2 ^ n - a * 2 ^ n \<in> \<int>" by (rule Ints_diff [rotated])
      then have g: "(b - a) * 2 ^ n \<in> \<int>" by (simp only: left_diff_distrib)
      from False have "b - a \<noteq> 0" by simp
      from round_double_sign [OF this n_def g] xf Fin show ?thesis by auto
    qed
  qed
qed

subsection \<open>Helper lemmas: rounding a double again\<close>

lemma ilog2_less:
  assumes "0 < a"
  shows "a < 2 powi (ilog2 a + 1)"
proof -
  obtain p q where pq: "quotient_of a = (p, q)" by force
  then have q: "0 < q" by (rule quotient_of_denom_pos)
  from pq have a: "a = of_int p / of_int q" by (rule quotient_of_div)
  with assms q have p: "0 < p" by (simp add: zero_less_divide_iff)
  define d where "d = bitlen p - bitlen q"
  show ?thesis
  proof (cases "a < 2 powi d")
    case True
    with pq show ?thesis by (simp add: ilog2_def d_def)
  next
    case False
    from bitlen_bounds [OF p] have hi: "p < 2 ^ nat (bitlen p)" by simp
    from bitlen_bounds [OF q] have lo: "2 ^ nat (bitlen q - 1) \<le> q" by simp
    from q have bq: "1 \<le> bitlen q" by (auto simp: bitlen_alt_def)
    have bp: "0 \<le> bitlen p" by (rule bitlen_nonneg)
    have n: "of_int p < (2::rat) powi (bitlen p)"
    proof -
      have "(of_int p :: rat) < of_int (2 ^ nat (bitlen p))" using hi by (simp only: of_int_less_iff)
      also have "\<dots> = 2 powi (bitlen p)" using bp by (simp add: power_int_def)
      finally show ?thesis .
    qed
    have m: "(2::rat) powi (bitlen q - 1) \<le> of_int q"
    proof -
      have "(2::rat) powi (bitlen q - 1) = 2 ^ nat (bitlen q - 1)"
        using bq by (simp add: power_int_def)
      also have "\<dots> = of_int (2 ^ nat (bitlen q - 1))" by simp
      also have "\<dots> \<le> of_int q" using lo by (simp only: of_int_le_iff)
      finally show ?thesis .
    qed
    have "a = of_int p / of_int q" by (rule a)
    also have "\<dots> < 2 powi (bitlen p) / 2 powi (bitlen q - 1)"
      by (rule frac_less) (use n m p q in simp_all)
    also have "\<dots> = 2 powi (bitlen p - (bitlen q - 1))"
      by (subst power_int_diff) simp_all
    also have "bitlen p - (bitlen q - 1) = d + 1" by (simp add: d_def)
    finally have "a < 2 powi (d + 1)" .
    with False pq show ?thesis by (simp add: ilog2_def d_def)
  qed
qed

lemma powi2_less_mono:
  assumes "(2::rat) powi e < 2 powi f"
  shows "e < f"
proof (rule ccontr)
  assume "\<not> e < f"
  then have "f \<le> e" by simp
  from power_int_increasing [OF this, of "2::rat"] have "(2::rat) powi f \<le> 2 powi e" by simp
  with assms show False by simp
qed

lemma ilog2_eq:
  assumes "0 < a" and "2 powi e \<le> a" and "a < 2 powi (e + 1)"
  shows "ilog2 a = e"
proof -
  from ilog2_le [OF assms(1)] assms(3) have "(2::rat) powi (ilog2 a) < 2 powi (e + 1)" by simp
  then have "ilog2 a < e + 1" by (rule powi2_less_mono)
  moreover from ilog2_less [OF assms(1)] assms(2) have "(2::rat) powi e < 2 powi (ilog2 a + 1)"
    by simp
  then have "e < ilog2 a + 1" by (rule powi2_less_mono)
  ultimately show ?thesis by simp
qed

lemma round_half_even_of_int [simp]: "round_half_even (of_int m) = m"
  by (simp add: round_half_even_def)

lemma round_half_even_le:
  assumes "q \<le> of_int n"
  shows "round_half_even q \<le> n"
proof -
  define f where "f = \<lfloor>q\<rfloor>"
  have fq: "of_int f \<le> q" "q < of_int f + 1" by (simp_all add: f_def) linarith
  show ?thesis
  proof (cases "q = of_int f")
    case True
    with assms have "f \<le> n" by simp
    moreover from True have "round_half_even q = f" by simp
    ultimately show ?thesis by simp
  next
    case False
    with fq assms have "of_int f < (of_int n :: rat)" by simp
    then have "f < n" by (simp only: of_int_less_iff)
    moreover have "round_half_even q \<le> f + 1"
      by (simp add: round_half_even_def Let_def f_def)
    ultimately show ?thesis by simp
  qed
qed


lemma powi2_le_mono:
  assumes "(2::rat) powi e \<le> 2 powi f"
  shows "e \<le> f"
proof (rule ccontr)
  assume "\<not> e \<le> f"
  then have "f < e" by simp
  from power_int_strict_increasing [OF this, of "2::rat"] have "(2::rat) powi f < 2 powi e" by simp
  with assms show False by simp
qed

lemma powi2_add: "(2::rat) powi (i + j) = 2 powi i * 2 powi j"
  by (rule power_int_add) simp

lemma powi2_add': "(2::rat) powi (i + j) = 2 powi j * 2 powi i"
  by (simp only: powi2_add mult.commute)

text \<open>A magnitude \<open>m * 2^k\<close> whose own exponent leads back to \<open>k\<close> is left as it is.\<close>

lemma round_double_scaled:
  assumes m: "1 \<le> m" and sg: "sg = 1 \<or> sg = - 1"
    and e: "ilog2 (of_int m * 2 powi k) = e" and k: "max e (- 1022) - 52 = k"
    and no: "\<not> (1024 \<le> e \<or> (e = 1023 \<and> m = 2 ^ 53))"
  shows "round_double (sg * of_int m * 2 powi k) = Fin (sg * of_int m * 2 powi k)"
proof -
  define p :: rat where "p = of_int m * 2 powi k"
  define w :: rat where "w = sg * of_int m * 2 powi k"
  from m have pos: "0 < p" by (simp add: p_def zero_less_mult_iff)
  have wp: "w = sg * p" by (simp add: w_def p_def mult.assoc)
  have "\<bar>w\<bar> = p" using sg pos by (auto simp: wp)
  then have aw: "\<bar>w\<bar> = of_int m * 2 powi k" by (simp only: p_def)
  have w0: "w \<noteq> 0" using sg pos by (auto simp: wp)
  have sgn: "(if w < 0 then - 1 else 1) = sg" using sg pos by (auto simp: wp)
  have q: "\<bar>w\<bar> / 2 powi k = of_int m" by (simp add: aw)
  have "round_double w =
     (if 1024 \<le> ilog2 \<bar>w\<bar>
         \<or> (ilog2 \<bar>w\<bar> = 1023
            \<and> round_half_even (\<bar>w\<bar> / 2 powi (max (ilog2 \<bar>w\<bar>) (- 1022) - 52)) = 2 ^ 53)
      then Inf (0 < w)
      else Fin ((if w < 0 then - 1 else 1)
                * of_int (round_half_even (\<bar>w\<bar> / 2 powi (max (ilog2 \<bar>w\<bar>) (- 1022) - 52)))
                * 2 powi (max (ilog2 \<bar>w\<bar>) (- 1022) - 52)))"
    using w0 by (rule round_double_nonzero)
  also have "ilog2 \<bar>w\<bar> = e" by (simp only: aw e)
  also have "max e (- 1022) - 52 = k" by (rule k)
  also have "\<bar>w\<bar> / 2 powi k = of_int m" by (rule q)
  also have "round_half_even (of_int m) = m" by simp
  finally have "round_double w =
     (if 1024 \<le> e \<or> (e = 1023 \<and> m = 2 ^ 53) then Inf (0 < w)
      else Fin ((if w < 0 then - 1 else 1) * of_int m * 2 powi k))" .
  with no sgn have "round_double w = Fin (sg * of_int m * 2 powi k)" by (simp only: if_False)
  then show ?thesis by (simp only: w_def)
qed

lemma round_double_idem:
  assumes "round_double v = Fin w"
  shows "round_double w = Fin w"
proof (cases "v = 0")
  case True
  with assms show ?thesis by (simp add: round_double_def)
next
  case False
  define a where "a = \<bar>v\<bar>"
  define e where "e = ilog2 a"
  define k where "k = max e (- 1022) - 52"
  define m where "m = round_half_even (a / 2 powi k)"
  define sg :: rat where "sg = (if v < 0 then - 1 else 1)"
  have sg: "sg = 1 \<or> sg = - 1" by (simp add: sg_def)
  from False have apos: "0 < a" by (simp add: a_def)
  have rd: "round_double v =
      (if 1024 \<le> e \<or> (e = 1023 \<and> m = 2 ^ 53) then Inf (0 < v)
       else Fin (sg * of_int m * 2 powi k))"
    unfolding m_def k_def e_def a_def sg_def using False by (rule round_double_nonzero)
  with assms have no: "\<not> (1024 \<le> e \<or> (e = 1023 \<and> m = 2 ^ 53))"
    by (cases "1024 \<le> e \<or> (e = 1023 \<and> m = 2 ^ 53)") simp_all
  with rd assms have w: "w = sg * of_int m * 2 powi k"
    by (simp only: if_False jsnum.inject)
  have lo: "2 powi e \<le> a" unfolding e_def using apos by (rule ilog2_le)
  have hi: "a < 2 powi (e + 1)" unfolding e_def using apos by (rule ilog2_less)
  have kk: "max e (- 1022) = k + 52" by (simp add: k_def)
  have pk: "(0::rat) < 2 powi k" by simp
  have "0 \<le> a / 2 powi k" using apos by simp
  then have "of_int 0 \<le> a / 2 powi k" by simp
  from round_half_even_ge [OF this] have m0: "0 \<le> m" by (simp add: m_def)
  show ?thesis
  proof (cases "m = 0")
    case True
    with w show ?thesis by (simp add: round_double_def)
  next
    case mnz: False
    with m0 have m1: "1 \<le> m" by simp
    have up: "a / 2 powi k < 2 powi 53"
    proof -
      have "e + 1 \<le> k + 53" using kk by simp
      from power_int_increasing [OF this, of "2::rat"] hi have "a < 2 powi (k + 53)" by simp
      also have "\<dots> = 2 powi 53 * 2 powi k" by (rule powi2_add')
      finally show ?thesis using pk by (simp only: pos_divide_less_eq)
    qed
    then have "a / 2 powi k \<le> of_int (2 ^ 53)" by simp
    from round_half_even_le [OF this] have m53: "m \<le> 2 ^ 53" by (simp add: m_def)
    show ?thesis
    proof (cases "- 1022 \<le> e")
      case normal: True
      then have ek: "e = k + 52" using kk by simp
      have "2 powi 52 * 2 powi k \<le> a" using lo by (simp only: ek powi2_add')
      then have "2 powi 52 \<le> a / 2 powi k" using pk by (simp only: pos_le_divide_eq)
      then have "of_int (2 ^ 52) \<le> a / 2 powi k" by simp
      from round_half_even_ge [OF this] have m52: "2 ^ 52 \<le> m" by (simp add: m_def)
      show ?thesis
      proof (cases "m = 2 ^ 53")
        case False
        with m53 have "m < 2 ^ 53" by simp
        then have "m + 1 \<le> 2 ^ 53" by simp
        then have "(of_int (m + 1) :: rat) \<le> of_int (2 ^ 53)" by (simp only: of_int_le_iff)
        then have mlt: "(of_int m :: rat) < 2 powi 53" by simp
        from m52 have "(of_int (2 ^ 52) :: rat) \<le> of_int m" by (simp only: of_int_le_iff)
        then have mge: "(2::rat) powi 52 \<le> of_int m" by simp
        have "2 powi e = 2 powi 52 * (2::rat) powi k" by (simp only: ek powi2_add')
        also have "\<dots> \<le> of_int m * 2 powi k" using mge by (rule mult_right_mono) simp
        finally have l: "2 powi e \<le> of_int m * (2::rat) powi k" .
        have "of_int m * (2::rat) powi k < 2 powi 53 * 2 powi k"
          using mlt pk by (rule mult_strict_right_mono)
        also have "\<dots> = 2 powi (k + 53)" by (simp only: powi2_add')
        also have "k + 53 = e + 1" by (simp add: ek)
        finally have u: "of_int m * (2::rat) powi k < 2 powi (e + 1)" .
        from m1 have "(0::rat) < of_int m * 2 powi k" by (simp add: zero_less_mult_iff)
        from ilog2_eq [OF this l u] have e': "ilog2 (of_int m * 2 powi k) = e" .
        have "round_double (sg * of_int m * 2 powi k) = Fin (sg * of_int m * 2 powi k)"
          using m1 sg e' _ no by (rule round_double_scaled) (simp add: k_def)
        with w show ?thesis by simp
      next
        case top: True
        from no top have e1022: "e \<le> 1022" by auto
        have pos: "(0::rat) < of_int (2 ^ 52) * 2 powi (k + 1)" by (simp add: zero_less_mult_iff)
        have "of_int (2 ^ 52) * (2::rat) powi (k + 1) = 2 powi 52 * 2 powi (k + 1)" by simp
        also have "\<dots> = 2 powi (k + 1 + 52)" by (simp only: powi2_add')
        also have "k + 1 + 52 = e + 1" by (simp add: ek)
        finally have val: "of_int (2 ^ 52) * (2::rat) powi (k + 1) = 2 powi (e + 1)" .
        have "(2::rat) powi (e + 1) < 2 powi (e + 1 + 1)"
          by (rule power_int_strict_increasing) simp_all
        with val have u: "of_int (2 ^ 52) * (2::rat) powi (k + 1) < 2 powi (e + 1 + 1)" by simp
        from val have l: "2 powi (e + 1) \<le> of_int (2 ^ 52) * (2::rat) powi (k + 1)" by simp
        from ilog2_eq [OF pos l u] have e': "ilog2 (of_int (2 ^ 52) * 2 powi (k + 1)) = e + 1" .
        have k': "max (e + 1) (- 1022) - 52 = k + 1" using normal ek by simp
        have no': "\<not> (1024 \<le> e + 1 \<or> (e + 1 = 1023 \<and> (2::int) ^ 52 = 2 ^ 53))"
          using e1022 by simp
        have "round_double (sg * of_int (2 ^ 52) * 2 powi (k + 1)) =
            Fin (sg * of_int (2 ^ 52) * 2 powi (k + 1))"
          using _ sg e' k' no' by (rule round_double_scaled) simp
        moreover have "sg * of_int (2 ^ 52) * (2::rat) powi (k + 1) = w"
          by (simp add: w top powi2_add)
        ultimately show ?thesis by simp
      qed
    next
      case sub: False
      then have k52: "k + 52 = - 1022" using kk by simp
      have up52: "a / 2 powi k \<le> 2 powi 52"
      proof -
        have "e + 1 \<le> k + 52" using sub k52 by simp
        from power_int_increasing [OF this, of "2::rat"] hi have "a \<le> 2 powi (k + 52)" by simp
        also have "\<dots> = 2 powi 52 * 2 powi k" by (rule powi2_add')
        finally show ?thesis using pk by (simp only: pos_divide_le_eq)
      qed
      then have "a / 2 powi k \<le> of_int (2 ^ 52)" by simp
      from round_half_even_le [OF this] have m52: "m \<le> 2 ^ 52" by (simp add: m_def)
      then have "(of_int m :: rat) \<le> of_int (2 ^ 52)" by (simp only: of_int_le_iff)
      then have mle: "(of_int m :: rat) \<le> 2 powi 52" by simp
      define e' where "e' = ilog2 (of_int m * 2 powi k)"
      from m1 have pos: "(0::rat) < of_int m * 2 powi k" by (simp add: zero_less_mult_iff)
      have "2 powi e' \<le> of_int m * (2::rat) powi k" unfolding e'_def using pos by (rule ilog2_le)
      also have "\<dots> \<le> 2 powi 52 * 2 powi k"
        using mle by (rule mult_right_mono) simp
      also have "\<dots> = 2 powi (k + 52)" by (simp only: powi2_add')
      finally have "e' \<le> k + 52" by (rule powi2_le_mono)
      with k52 have e'le: "e' \<le> - 1022" by simp
      then have k': "max e' (- 1022) - 52 = k" using k52 by simp
      from e'le have no': "\<not> (1024 \<le> e' \<or> (e' = 1023 \<and> m = 2 ^ 53))" by simp
      have "round_double (sg * of_int m * 2 powi k) = Fin (sg * of_int m * 2 powi k)"
        using m1 sg _ k' no' by (rule round_double_scaled) (simp add: e'_def)
      with w show ?thesis by simp
    qed
  qed
qed

text \<open>Every number the arithmetic produces is a double.\<close>

lemma is_double_round_double: "is_double (round_double v)"
proof (cases "round_double v")
  case (Fin w)
  then show ?thesis by (simp add: round_double_idem)
qed simp_all

lemma is_double_zero: "is_double (Fin 0)"
  by (simp add: round_double_def)

lemma is_double_fsub: "is_double (fsub x y)"
  by (cases x; cases y) (simp_all add: is_double_round_double)

lemma is_double_fdiv: "is_double (fdiv x y)"
  by (cases x; cases y) (simp_all add: is_double_round_double is_double_zero del: is_double.simps(3))

lemma is_double_fmul: "is_double (fmul x y)"
  by (cases x; cases y) (simp_all add: is_double_round_double)

lemma is_double_compute_pct: "is_double (compute_pct c ch)"
  by (simp add: compute_pct_def Let_def is_double_fmul is_double_zero del: is_double.simps(3))

lemma normalized_pct_is_double:
  assumes "processTwseData json = Inr out \<or> processTpexData B json = Inr out" and "s \<in> set out"
  shows "is_double (pct s)"
proof -
  from assms have "\<exists>c ch. pct s = compute_pct c ch"
    using twse_pct [of json out s] tpex_pct [of B json out s] by blast
  then show ?thesis by (auto simp: is_double_compute_pct simp del: is_double.simps(3))
qed

subsection \<open>Helper lemmas: the insertion sort\<close>

lemma set_insort_cmp: "set (insort_cmp cmp x ys) = insert x (set ys)"
  by (induction ys) auto

lemma mset_insort_cmp: "mset (insort_cmp cmp x ys) = add_mset x (mset ys)"
  by (induction ys) auto

lemma mset_js_sort: "mset (js_sort cmp xs) = mset xs"
  by (induction xs) (simp_all add: js_sort_def mset_insort_cmp)

lemma set_js_sort: "set (js_sort cmp xs) = set xs"
  by (induction xs) (simp_all add: js_sort_def set_insort_cmp)

lemma length_js_sort: "length (js_sort cmp xs) = length xs"
  using mset_js_sort [of cmp xs] by (metis size_mset)

lemma sorted_insort_cmp:
  assumes "sorted_wrt ord ys" and "ok x" and "\<forall>y\<in>set ys. ok y"
    and before: "\<And>a b. ok a \<Longrightarrow> ok b \<Longrightarrow> \<not> num_gt (cmp a b) (Fin 0) \<Longrightarrow> ord a b"
    and after: "\<And>a b. ok a \<Longrightarrow> ok b \<Longrightarrow> num_gt (cmp a b) (Fin 0) \<Longrightarrow> ord b a"
    and trans: "\<And>a b c. ok a \<Longrightarrow> ok b \<Longrightarrow> ok c \<Longrightarrow> ord a b \<Longrightarrow> ord b c \<Longrightarrow> ord a c"
  shows "sorted_wrt ord (insort_cmp cmp x ys)"
  using assms(1,3)
proof (induction ys)
  case Nil
  then show ?case by simp
next
  case (Cons y ys)
  show ?case
  proof (cases "num_gt (cmp x y) (Fin 0)")
    case True
    from Cons.prems have "ok y" by simp
    with True assms(2) have "ord y x" by (auto intro: after)
    with True Cons show ?thesis by (auto simp: set_insort_cmp)
  next
    case False
    from Cons.prems have oky: "ok y" by simp
    with False assms(2) have xy: "ord x y" by (auto intro: before)
    have "ord x z" if "z \<in> set ys" for z
    proof -
      from that Cons.prems have "ord y z" "ok z" by auto
      with xy oky assms(2) show ?thesis by (blast intro: trans)
    qed
    with False xy Cons.prems show ?thesis by auto
  qed
qed

lemma sorted_js_sort:
  assumes "\<forall>x\<in>set xs. ok x"
    and before: "\<And>a b. ok a \<Longrightarrow> ok b \<Longrightarrow> \<not> num_gt (cmp a b) (Fin 0) \<Longrightarrow> ord a b"
    and after: "\<And>a b. ok a \<Longrightarrow> ok b \<Longrightarrow> num_gt (cmp a b) (Fin 0) \<Longrightarrow> ord b a"
    and trans: "\<And>a b c. ok a \<Longrightarrow> ok b \<Longrightarrow> ok c \<Longrightarrow> ord a b \<Longrightarrow> ord b c \<Longrightarrow> ord a c"
  shows "sorted_wrt ord (js_sort cmp xs)"
  using assms(1)
proof (induction xs)
  case Nil
  then show ?case by (simp add: js_sort_def)
next
  case (Cons x xs)
  then have s: "sorted_wrt ord (js_sort cmp xs)" by simp
  from Cons.prems have okx: "ok x" and oks: "\<forall>y\<in>set (js_sort cmp xs). ok y"
    by (simp_all add: set_js_sort)
  have "sorted_wrt ord (insort_cmp cmp x (js_sort cmp xs))"
    using s okx oks before after trans by (rule sorted_insort_cmp)
  then show ?case by (simp add: js_sort_def)
qed

lemma filter_insort_cmp:
  assumes "\<And>y. y \<in> set ys \<Longrightarrow> num_gt (cmp x y) (Fin 0) \<Longrightarrow> key y \<noteq> key x"
  shows "filter (\<lambda>s. key s = p) (insort_cmp cmp x ys) =
           (if key x = p then x # filter (\<lambda>s. key s = p) ys else filter (\<lambda>s. key s = p) ys)"
  using assms
proof (induction ys)
  case Nil
  then show ?case by simp
next
  case (Cons y ys)
  have ih: "filter (\<lambda>s. key s = p) (insort_cmp cmp x ys) =
      (if key x = p then x # filter (\<lambda>s. key s = p) ys else filter (\<lambda>s. key s = p) ys)"
    by (rule Cons.IH) (use Cons.prems in auto)
  show ?case
  proof (cases "num_gt (cmp x y) (Fin 0)")
    case True
    with Cons.prems have "key y \<noteq> key x" by simp
    with True ih show ?thesis by auto
  next
    case False
    then show ?thesis by simp
  qed
qed

lemma filter_js_sort:
  assumes "\<And>x y. x \<in> set xs \<Longrightarrow> y \<in> set xs \<Longrightarrow> num_gt (cmp x y) (Fin 0) \<Longrightarrow> key y \<noteq> key x"
  shows "filter (\<lambda>s. key s = p) (js_sort cmp xs) = filter (\<lambda>s. key s = p) xs"
  using assms
proof (induction xs)
  case Nil
  then show ?case by (simp add: js_sort_def)
next
  case (Cons x xs)
  have ih: "filter (\<lambda>s. key s = p) (js_sort cmp xs) = filter (\<lambda>s. key s = p) xs"
    by (rule Cons.IH) (use Cons.prems in auto)
  have "filter (\<lambda>s. key s = p) (insort_cmp cmp x (js_sort cmp xs)) =
      (if key x = p then x # filter (\<lambda>s. key s = p) (js_sort cmp xs)
       else filter (\<lambda>s. key s = p) (js_sort cmp xs))"
    by (rule filter_insort_cmp) (use Cons.prems in \<open>auto simp: set_js_sort\<close>)
  with ih show ?case by (simp add: js_sort_def)
qed

lemma num_ge_total:
  assumes "\<not> isNaN x" "\<not> isNaN y" "\<not> num_gt y x"
  shows "num_ge x y"
  using assms by (cases x; cases y) auto

lemma num_gt_ge:
  assumes "num_gt x y"
  shows "num_ge x y"
  using assms by (cases x; cases y) auto

lemma num_ge_trans:
  assumes "num_ge x y" "num_ge y z"
  shows "num_ge x z"
  using assms by (cases x; cases y; cases z) auto

lemma num_gt_neq:
  assumes "num_gt x y"
  shows "x \<noteq> y"
  using assms by (cases x; cases y) auto

lemma gainers_sorted:
  assumes "\<forall>s\<in>set xs. rankable s"
  shows "sorted_wrt (\<lambda>a b. num_ge (pct a) (pct b)) (js_sort (\<lambda>a b. fsub (pct b) (pct a)) xs)"
  using assms
proof (rule sorted_js_sort [where ok = rankable])
  fix a b assume "rankable a" "rankable b" "\<not> num_gt (fsub (pct b) (pct a)) (Fin 0)"
  then show "num_ge (pct a) (pct b)"
    by (simp add: rankable_def gt_zero_fsub num_ge_total)
next
  fix a b assume "rankable a" "rankable b" "num_gt (fsub (pct b) (pct a)) (Fin 0)"
  then show "num_ge (pct b) (pct a)"
    by (simp add: rankable_def gt_zero_fsub num_gt_ge)
next
  fix a b c :: stock assume "num_ge (pct a) (pct b)" "num_ge (pct b) (pct c)"
  then show "num_ge (pct a) (pct c)" by (rule num_ge_trans)
qed

lemma losers_sorted:
  assumes "\<forall>s\<in>set xs. rankable s"
  shows "sorted_wrt (\<lambda>a b. num_ge (pct b) (pct a)) (js_sort (\<lambda>a b. fsub (pct a) (pct b)) xs)"
  using assms
proof (rule sorted_js_sort [where ok = rankable])
  fix a b assume "rankable a" "rankable b" "\<not> num_gt (fsub (pct a) (pct b)) (Fin 0)"
  then show "num_ge (pct b) (pct a)"
    by (simp add: rankable_def gt_zero_fsub num_ge_total)
next
  fix a b assume "rankable a" "rankable b" "num_gt (fsub (pct a) (pct b)) (Fin 0)"
  then show "num_ge (pct a) (pct b)"
    by (simp add: rankable_def gt_zero_fsub num_gt_ge)
next
  fix a b c :: stock assume "num_ge (pct c) (pct b)" "num_ge (pct b) (pct a)"
  then show "num_ge (pct c) (pct a)" by (rule num_ge_trans)
qed

lemma gainers_stable:
  assumes "\<forall>s\<in>set xs. rankable s"
  shows "filter (\<lambda>s. pct s = p) (js_sort (\<lambda>a b. fsub (pct b) (pct a)) xs) = filter (\<lambda>s. pct s = p) xs"
proof (rule filter_js_sort)
  fix x y assume "x \<in> set xs" "y \<in> set xs" "num_gt (fsub (pct y) (pct x)) (Fin 0)"
  with assms have "num_gt (pct y) (pct x)" by (simp add: rankable_def gt_zero_fsub)
  then show "pct y \<noteq> pct x" by (rule num_gt_neq)
qed

lemma losers_stable:
  assumes "\<forall>s\<in>set xs. rankable s"
  shows "filter (\<lambda>s. pct s = p) (js_sort (\<lambda>a b. fsub (pct a) (pct b)) xs) = filter (\<lambda>s. pct s = p) xs"
proof (rule filter_js_sort)
  fix x y assume "x \<in> set xs" "y \<in> set xs" "num_gt (fsub (pct x) (pct y)) (Fin 0)"
  with assms have "num_gt (pct x) (pct y)" by (simp add: rankable_def gt_zero_fsub)
  then have "pct x \<noteq> pct y" by (rule num_gt_neq)
  then show "pct y \<noteq> pct x" by simp
qed

subsection \<open>Gainers and losers\<close>

lemma infinity_twse_eval: "processTwseData infinity_twse = Inr [inf_one, inf_odd, inf_two]"
  by code_simp

text \<open>
  C4, as stated, fails when a percentage is \<open>NaN\<close>. The change text \<open>Infinity\<close> parses
  to a number, so the row passes line 71, and its percentage is
  \<open>Infinity / (1 - Infinity) * 100 = NaN\<close>. Every comparison with that record gives the
  comparator \<open>NaN\<close>, which the sort reads as equal: the three records stay in input
  order, and the gainers list has 1 before 2.
\<close>

theorem ranking_with_nan_counterexample:
  "processTwseData infinity_twse = Inr [inf_one, inf_odd, inf_two]
   \<and> [inf_one, inf_odd, inf_two] \<noteq> []
   \<and> map pct (gainers_of [inf_one, inf_odd, inf_two]) = [Fin 1, NaN, Fin 2]
   \<and> \<not> sorted_wrt (\<lambda>a b. num_ge (pct a) (pct b)) (gainers_of [inf_one, inf_odd, inf_two])"
proof -
  have g: "gainers_of [inf_one, inf_odd, inf_two] = [inf_one, inf_odd, inf_two]"
    by code_simp
  have p: "map pct [inf_one, inf_odd, inf_two] = [Fin 1, NaN, Fin 2]"
    by (simp add: inf_one_def inf_odd_def inf_two_def)
  have "\<not> sorted_wrt (\<lambda>a b. num_ge (pct a) (pct b)) [inf_one, inf_odd, inf_two]"
    by (simp add: inf_one_def inf_odd_def inf_two_def)
  with g p infinity_twse_eval show ?thesis by simp
qed

text \<open>
  C4, amended. For every combined list in which each percentage is a double other than
  \<open>NaN\<close> (by \<open>normalized_pct_is_double\<close> every percentage a normalizer returns is a
  double, so only \<open>NaN\<close> is excluded): the gainers are the first 100 entries of a list \<open>G\<close> that is a rearrangement of
  the combined list, descending by \<open>pct\<close>, with the records of any one percentage in their
  input order; the losers are the first 100 entries of such a list \<open>L\<close> ascending by
  \<open>pct\<close>; and each has the length of the combined list when that is below 100.
\<close>

theorem ranking_is_stable_sort:
  assumes "\<forall>s\<in>set allStocks. rankable s"
  shows "\<exists>G L.
           gainers_of allStocks = take 100 G \<and> mset G = mset allStocks
           \<and> sorted_wrt (\<lambda>a b. num_ge (pct a) (pct b)) G
           \<and> (\<forall>p. filter (\<lambda>s. pct s = p) G = filter (\<lambda>s. pct s = p) allStocks)
           \<and> losers_of allStocks = take 100 L \<and> mset L = mset allStocks
           \<and> sorted_wrt (\<lambda>a b. num_ge (pct b) (pct a)) L
           \<and> (\<forall>p. filter (\<lambda>s. pct s = p) L = filter (\<lambda>s. pct s = p) allStocks)
           \<and> length (gainers_of allStocks) = min 100 (length allStocks)
           \<and> length (losers_of allStocks) = min 100 (length allStocks)"
proof -
  define G where "G = js_sort (\<lambda>a b. fsub (pct b) (pct a)) allStocks"
  define L where "L = js_sort (\<lambda>a b. fsub (pct a) (pct b)) allStocks"
  have g1: "gainers_of allStocks = take 100 G" by (simp add: gainers_of_def G_def)
  have g2: "mset G = mset allStocks" by (simp add: G_def mset_js_sort)
  have g3: "sorted_wrt (\<lambda>a b. num_ge (pct a) (pct b)) G"
    unfolding G_def using assms by (rule gainers_sorted)
  have g4: "\<forall>p. filter (\<lambda>s. pct s = p) G = filter (\<lambda>s. pct s = p) allStocks"
    unfolding G_def using assms by (simp add: gainers_stable)
  have l1: "losers_of allStocks = take 100 L" by (simp add: losers_of_def L_def)
  have l2: "mset L = mset allStocks" by (simp add: L_def mset_js_sort)
  have l3: "sorted_wrt (\<lambda>a b. num_ge (pct b) (pct a)) L"
    unfolding L_def using assms by (rule losers_sorted)
  have l4: "\<forall>p. filter (\<lambda>s. pct s = p) L = filter (\<lambda>s. pct s = p) allStocks"
    unfolding L_def using assms by (simp add: losers_stable)
  have n1: "length (gainers_of allStocks) = min 100 (length allStocks)"
    by (simp add: gainers_of_def length_js_sort min.commute)
  have n2: "length (losers_of allStocks) = min 100 (length allStocks)"
    by (simp add: losers_of_def length_js_sort min.commute)
  from g1 g2 g3 g4 l1 l2 l3 l4 n1 n2 show ?thesis by blast
qed

lemma listed_rankable:
  "rankable (listed ''A'' 1)" "rankable (listed ''B'' 2)" "rankable (listed ''C'' 1)"
  by code_simp+

lemma listed_ranking_eval:
  "gainers_of [listed ''A'' 1, listed ''B'' 2, listed ''C'' 1] =
     [listed ''B'' 2, listed ''A'' 1, listed ''C'' 1]"
  "losers_of [listed ''A'' 1, listed ''B'' 2, listed ''C'' 1] =
     [listed ''A'' 1, listed ''C'' 1, listed ''B'' 2]"
  by code_simp+

theorem ranking_is_stable_sort_witness:
  "rankable (listed ''A'' 1) \<and> rankable (listed ''B'' 2) \<and> rankable (listed ''C'' 1)
   \<and> gainers_of [listed ''A'' 1, listed ''B'' 2, listed ''C'' 1] =
       [listed ''B'' 2, listed ''A'' 1, listed ''C'' 1]
   \<and> losers_of [listed ''A'' 1, listed ''B'' 2, listed ''C'' 1] =
       [listed ''A'' 1, listed ''C'' 1, listed ''B'' 2]
   \<and> length (gainers_of [listed ''A'' 1, listed ''B'' 2, listed ''C'' 1]) =
       min 100 (length [listed ''A'' 1, listed ''B'' 2, listed ''C'' 1])
   \<and> (\<exists>G. gainers_of [listed ''A'' 1, listed ''B'' 2, listed ''C'' 1] = take 100 G
          \<and> sorted_wrt (\<lambda>a b. num_ge (pct a) (pct b)) G
          \<and> mset G = mset [listed ''A'' 1, listed ''B'' 2, listed ''C'' 1])"
proof -
  have h: "\<forall>s\<in>set [listed ''A'' 1, listed ''B'' 2, listed ''C'' 1]. rankable s"
    using listed_rankable by simp
  from ranking_is_stable_sort [OF h]
  have c: "length (gainers_of [listed ''A'' 1, listed ''B'' 2, listed ''C'' 1]) =
       min 100 (length [listed ''A'' 1, listed ''B'' 2, listed ''C'' 1])
     \<and> (\<exists>G. gainers_of [listed ''A'' 1, listed ''B'' 2, listed ''C'' 1] = take 100 G
          \<and> sorted_wrt (\<lambda>a b. num_ge (pct a) (pct b)) G
          \<and> mset G = mset [listed ''A'' 1, listed ''B'' 2, listed ''C'' 1])"
    by blast
  from listed_rankable listed_ranking_eval c show ?thesis by blast
qed

subsection \<open>Helper lemmas: two-decimal formatting\<close>










subsection \<open>The display string of a record\<close>






lemma scenario_formats:
  "format_pct B0 (pct tsmc) = ascii ''+1.69%''"
  "format_pct B0 (pct smallco) = ascii ''-3.85%''"
  by code_simp+

lemma scenario_map:
  "build_stock_map B0 ([tsmc] @ smallco # []) Map.empty =
     Inr [ascii ''2330'' \<mapsto> ascii ''+1.69%'', ascii ''5678'' \<mapsto> ascii ''-3.85%'']"
  by (simp add: js_set_def scenario_formats) (simp add: tsmc_def smallco_def S_def ascii_def)


subsection \<open>The end-to-end scenario\<close>

text \<open>
  The scenario of the specification: the exchange-1 row gives \<open>pct\<close> near 1.6949, the
  exchange-2 row near -3.8462; the first gainer is the former, the first loser the latter,
  and the answer is a 200.
\<close>

lemma scenario_ranking:
  "gainers_of ([tsmc] @ [smallco]) = [tsmc, smallco]"
  "losers_of ([tsmc] @ [smallco]) = [smallco, tsmc]"
  by code_simp+

lemma scenario_response:
  "fst (market_data B0 True (Inr (Inr example_twse)) (Inr (Inr example_tpex)) now) =
     Response 200 (SnapshotBody
       \<lparr>gainers = [tsmc, smallco], losers = [smallco, tsmc],
        stockMap = [ascii ''2330'' \<mapsto> ascii ''+1.69%'', ascii ''5678'' \<mapsto> ascii ''-3.85%''],
        timestamp = now\<rparr>)"
  using scenario_map scenario_ranking
  by (simp add: market_data_def try_block_def example_twse_eval example_tpex_eval)

end
